theory Spec2Isabelle
  imports Complex_Main
begin

section \<open>Outcomes of a call\<close>

text \<open>
  The numeric code of \<^verbatim>\<open>glognn/small-scale/main.py\<close> works on float64 tensors. The model
  takes the entries of a tensor to be real numbers and computes with them exactly: rounding
  and overflow are outside it. The places where the source leaves the finite numbers from
  finite operands are kept visible: a division by a zero tensor gives \<^verbatim>\<open>inf\<close> in torch and
  numpy and raises nothing, so the exact model stops such a call with the outcome
  \<open>NonFinite\<close>, which stands for no exception of the source: from there on the source
  computes with \<^verbatim>\<open>inf\<close> and \<^verbatim>\<open>nan\<close>, which no real number stands for. What
  \<^verbatim>\<open>norm_func1\<close> returns from there on is computed by \<open>norm_func1_ieee\<close> below, the same
  function over the floats with \<^verbatim>\<open>inf\<close> and \<^verbatim>\<open>nan\<close>; the two agree wherever neither division
  is by zero. \<^verbatim>\<open>norm_func2\<close> is followed on finite numbers only.
  \<^verbatim>\<open>np.power(0., -1)\<close> in \<^verbatim>\<open>normalize\<close> gives the value \<open>Infinity\<close>, which the source itself
  tests for and replaces.

  Every exception the modelled code can raise is a value of \<open>fault\<close>.
\<close>

datatype fault =
    ShapeError       \<comment> \<open>RuntimeError: sizes of the operands do not fit\<close>
  | IndexError       \<comment> \<open>index out of bounds for a dimension\<close>
  | SingularMatrix   \<comment> \<open>torch.inverse on a singular matrix\<close>
  | ValueError       \<comment> \<open>dropout probability outside [0, 1]\<close>
  | MetricError      \<comment> \<open>the metric function raised (roc_auc_score with one class)\<close>
  | TypeError        \<comment> \<open>\<^verbatim>\<open>load_state_dict(None)\<close>\<close>
  | NonFinite        \<comment> \<open>no exception: a division by zero, where the exact model stops\<close>

fun bind_result :: "fault + 'a \<Rightarrow> ('a \<Rightarrow> fault + 'b) \<Rightarrow> fault + 'b" where
  "bind_result (Inl e) f = Inl e"
| "bind_result (Inr v) f = f v"

definition fdiv :: "real \<Rightarrow> real \<Rightarrow> fault + real" where
  \<comment> \<open>\<^verbatim>\<open>a / b\<close> on float tensors, as far as the quotient is a real number\<close>
  "fdiv a b = (if b = 0 then Inl NonFinite else Inr (a / b))"

section \<open>Tensors\<close>

text \<open>
  A two-dimensional tensor carries its shape, as a torch tensor does (a tensor of shape
  \<open>(n, 0)\<close> is not one of shape \<open>(0, n)\<close>), and its rows. A one-dimensional tensor is the
  list of its entries. Sparse and dense tensors hold the same matrix and are not told apart.
\<close>

datatype tensor = Tensor (nrows: nat) (ncols: nat) (rows: "real list list")

definition wf_tensor :: "tensor \<Rightarrow> bool" where
  "wf_tensor T \<longleftrightarrow> length (rows T) = nrows T \<and> list_all (\<lambda>r. length r = ncols T) (rows T)"

definition has_shape :: "nat \<Rightarrow> nat \<Rightarrow> tensor \<Rightarrow> bool" where
  "has_shape n k T \<longleftrightarrow> wf_tensor T \<and> nrows T = n \<and> ncols T = k"

definition ent :: "tensor \<Rightarrow> nat \<Rightarrow> nat \<Rightarrow> real" where
  "ent T i j = rows T ! i ! j"

definition mk :: "nat \<Rightarrow> nat \<Rightarrow> (nat \<Rightarrow> nat \<Rightarrow> real) \<Rightarrow> tensor" where
  \<comment> \<open>the tensor of shape \<open>(n, k)\<close> whose entry \<open>(i, j)\<close> is \<open>f i j\<close>\<close>
  "mk n k f = Tensor n k (map (\<lambda>i. map (f i) [0..<k]) [0..<n])"

definition mat_mul :: "tensor \<Rightarrow> tensor \<Rightarrow> tensor" where
  \<comment> \<open>the matrix product \<open>A B\<close>\<close>
  "mat_mul A B = mk (nrows A) (ncols B) (\<lambda>i j. \<Sum>l<ncols A. ent A i l * ent B l j)"

definition mm :: "tensor \<Rightarrow> tensor \<Rightarrow> fault + tensor" where
  \<comment> \<open>\<^verbatim>\<open>torch.mm(A, B)\<close>: the product, after the check of the inner sizes\<close>
  "mm A B = (if ncols A = nrows B then Inr (mat_mul A B) else Inl ShapeError)"

definition spmm :: "tensor \<Rightarrow> tensor \<Rightarrow> fault + tensor" where
  \<comment> \<open>\<^verbatim>\<open>torch.spmm(adj, B)\<close>: the product with a sparse left operand\<close>
  "spmm A B = mm A B"

definition transpose_t :: "tensor \<Rightarrow> tensor" where
  \<comment> \<open>\<^verbatim>\<open>torch.transpose(A, 0, 1)\<close>, \<^verbatim>\<open>A.t()\<close>\<close>
  "transpose_t A = mk (ncols A) (nrows A) (\<lambda>i j. ent A j i)"

definition eye :: "nat \<Rightarrow> tensor" where
  "eye n = mk n n (\<lambda>i j. if i = j then 1 else 0)"

definition smul :: "real \<Rightarrow> tensor \<Rightarrow> tensor" where
  \<comment> \<open>a scalar (a Python float or a zero-dimensional tensor) times a tensor\<close>
  "smul c A = mk (nrows A) (ncols A) (\<lambda>i j. c * ent A i j)"

definition relu :: "tensor \<Rightarrow> tensor" where
  "relu A = mk (nrows A) (ncols A) (\<lambda>i j. max 0 (ent A i j))"

definition bdim :: "nat \<Rightarrow> nat \<Rightarrow> nat option" where
  \<comment> \<open>broadcasting of one dimension: equal sizes, or one of them is 1\<close>
  "bdim a b = (if a = b then Some a else if a = 1 then Some b else if b = 1 then Some a else None)"

definition bent :: "tensor \<Rightarrow> nat \<Rightarrow> nat \<Rightarrow> real" where
  \<comment> \<open>the entry a broadcast operand contributes at \<open>(i, j)\<close>\<close>
  "bent A i j = ent A (if nrows A = 1 then 0 else i) (if ncols A = 1 then 0 else j)"

definition broadcast2 :: "(real \<Rightarrow> real \<Rightarrow> real) \<Rightarrow> tensor \<Rightarrow> tensor \<Rightarrow> fault + tensor" where
  \<comment> \<open>an element-wise binary operator of torch, with broadcasting\<close>
  "broadcast2 f A B =
     (case (bdim (nrows A) (nrows B), bdim (ncols A) (ncols B)) of
        (Some n, Some k) \<Rightarrow> Inr (mk n k (\<lambda>i j. f (bent A i j) (bent B i j)))
      | _ \<Rightarrow> Inl ShapeError)"

definition tadd :: "tensor \<Rightarrow> tensor \<Rightarrow> fault + tensor" where
  "tadd = broadcast2 (+)"

definition tsub :: "tensor \<Rightarrow> tensor \<Rightarrow> fault + tensor" where
  "tsub = broadcast2 (-)"

definition tmul :: "tensor \<Rightarrow> tensor \<Rightarrow> fault + tensor" where
  "tmul = broadcast2 (*)"

definition index0 :: "tensor \<Rightarrow> nat \<Rightarrow> fault + real list" where
  \<comment> \<open>\<^verbatim>\<open>A[i]\<close> for \<open>i \<ge> 0\<close>: row \<open>i\<close> as a one-dimensional tensor\<close>
  "index0 A i = (if i < nrows A then Inr (map (ent A i) [0..<ncols A]) else Inl IndexError)"

definition row_tensor :: "real list \<Rightarrow> tensor" where
  \<comment> \<open>a one-dimensional operand of a two-dimensional operation: shape \<open>(1, length v)\<close>\<close>
  "row_tensor v = mk 1 (length v) (\<lambda>i j. v ! j)"

definition unsqueeze1 :: "real list \<Rightarrow> tensor" where
  \<comment> \<open>\<^verbatim>\<open>v.unsqueeze(1)\<close>: shape \<open>(length v, 1)\<close>\<close>
  "unsqueeze1 v = mk (length v) 1 (\<lambda>i j. v ! i)"

subsection \<open>The matrix inverse\<close>

text \<open>
  \<^verbatim>\<open>torch.inverse\<close> is library code. It is modelled in exact arithmetic by the cofactor formula:
  it raises on a matrix that is not square or whose determinant is zero and returns the
  adjugate divided by the determinant otherwise.
\<close>

definition skip :: "nat \<Rightarrow> nat \<Rightarrow> nat" where
  "skip p i = (if i < p then i else Suc i)"

fun det :: "nat \<Rightarrow> (nat \<Rightarrow> nat \<Rightarrow> real) \<Rightarrow> real" where
  "det 0 f = 1"
| "det (Suc n) f = (\<Sum>j<Suc n. (- 1) ^ j * f 0 j * det n (\<lambda>r c. f (Suc r) (skip j c)))"

definition cofactor :: "nat \<Rightarrow> (nat \<Rightarrow> nat \<Rightarrow> real) \<Rightarrow> nat \<Rightarrow> nat \<Rightarrow> real" where
  "cofactor n f i j = (- 1) ^ (i + j) * det (n - 1) (\<lambda>r c. f (skip i r) (skip j c))"

definition mat_inverse :: "tensor \<Rightarrow> tensor" where
  \<comment> \<open>the adjugate of a square matrix divided by its determinant\<close>
  "mat_inverse A =
     mk (nrows A) (nrows A) (\<lambda>i j. cofactor (nrows A) (ent A) j i / det (nrows A) (ent A))"

definition torch_inverse :: "tensor \<Rightarrow> fault + tensor" where
  "torch_inverse A =
     (if nrows A \<noteq> ncols A then Inl ShapeError
      else if det (nrows A) (ent A) = 0 then Inl SingularMatrix
      else Inr (mat_inverse A))"

section \<open>The model class \<^verbatim>\<open>MLP_NORM\<close>\<close>

record linear =
  weight :: tensor      \<comment> \<open>shape \<open>(out_features, in_features)\<close>\<close>
  bias :: "real list"   \<comment> \<open>shape \<open>(out_features)\<close>\<close>

definition apply_linear :: "linear \<Rightarrow> tensor \<Rightarrow> fault + tensor" where
  \<comment> \<open>\<^verbatim>\<open>nn.Linear.forward\<close>: \<open>x W\<^sup>T + b\<close>\<close>
  "apply_linear l x =
     bind_result (mm x (transpose_t (weight l))) (\<lambda>y. tadd y (row_tensor (bias l)))"

record mlp_norm =
  fc1 :: linear
  fc2 :: linear
  fc3 :: linear
  nclass :: nat
  dropout :: real
  alpha :: real
  beta :: real
  gamma :: real
  delta :: real
  norm_layers :: int
  orders :: int
  class_eye :: tensor
  nodes_eye :: tensor
  orders_weight :: tensor
  orders_weight_matrix :: tensor
  orders_weight_matrix2 :: tensor
  diag_weight :: tensor
  norm_func_id :: int
  orders_func_id :: int
  training :: bool

definition constructed :: "nat \<Rightarrow> mlp_norm \<Rightarrow> bool" where
  \<comment> \<open>the shapes \<^verbatim>\<open>MLP_NORM.__init__\<close> gives the tensors the normalisation step reads, for a
      graph of \<open>nnodes\<close> nodes; gradient steps change the entries, never the shapes\<close>
  "constructed nnodes m \<longleftrightarrow>
     0 \<le> orders m \<and>
     class_eye m = eye (nclass m) \<and>
     nodes_eye m = eye nnodes \<and>
     has_shape (nat (orders m)) 1 (orders_weight m) \<and>
     has_shape (nclass m) (nat (orders m)) (orders_weight_matrix m) \<and>
     has_shape (nat (orders m)) (nat (orders m)) (orders_weight_matrix2 m) \<and>
     has_shape (nclass m) 1 (diag_weight m)"

subsection \<open>Propagation: \<^verbatim>\<open>order_func1\<close>, \<^verbatim>\<open>order_func2\<close>, \<^verbatim>\<open>order_func3\<close>\<close>

fun order1_loop :: "nat \<Rightarrow> tensor \<Rightarrow> tensor \<Rightarrow> tensor \<Rightarrow> fault + tensor" where
  \<comment> \<open>\<^verbatim>\<open>for _ in range(self.orders)\<close>, with the iterations left as the first argument\<close>
  "order1_loop 0 adj tmp_orders sum_orders = Inr sum_orders"
| "order1_loop (Suc k) adj tmp_orders sum_orders =
     bind_result (spmm adj tmp_orders) (\<lambda>tmp_orders.
     bind_result (tadd sum_orders tmp_orders) (\<lambda>sum_orders.
     order1_loop k adj tmp_orders sum_orders))"

definition order_func1 :: "mlp_norm \<Rightarrow> tensor \<Rightarrow> tensor \<Rightarrow> tensor \<Rightarrow> fault + tensor" where
  "order_func1 m x res adj = order1_loop (nat (orders m)) adj res res"

fun order2_loop :: "tensor \<Rightarrow> nat list \<Rightarrow> tensor \<Rightarrow> tensor \<Rightarrow> tensor \<Rightarrow> fault + tensor" where
  \<comment> \<open>\<^verbatim>\<open>for i in range(1, self.orders)\<close>, over the list of the remaining \<open>i\<close>\<close>
  "order2_loop w [] adj tmp_orders sum_orders = Inr sum_orders"
| "order2_loop w (i # is) adj tmp_orders sum_orders =
     bind_result (spmm adj tmp_orders) (\<lambda>tmp_orders.
     bind_result (index0 w i) (\<lambda>wi.
     bind_result (tmul tmp_orders (row_tensor wi)) (\<lambda>t.
     bind_result (tadd sum_orders t) (\<lambda>sum_orders.
     order2_loop w is adj tmp_orders sum_orders))))"

definition order_func2 :: "mlp_norm \<Rightarrow> tensor \<Rightarrow> tensor \<Rightarrow> tensor \<Rightarrow> fault + tensor" where
  "order_func2 m x res adj =
     bind_result (spmm adj res) (\<lambda>tmp_orders.
     bind_result (index0 (orders_weight m) 0) (\<lambda>w0.
     bind_result (tmul tmp_orders (row_tensor w0)) (\<lambda>sum_orders.
     order2_loop (orders_weight m) [1..<nat (orders m)] adj tmp_orders sum_orders)))"

fun order3_loop :: "tensor \<Rightarrow> nat list \<Rightarrow> tensor \<Rightarrow> tensor \<Rightarrow> tensor \<Rightarrow> fault + tensor" where
  "order3_loop orders_para [] adj tmp_orders sum_orders = Inr sum_orders"
| "order3_loop orders_para (i # is) adj tmp_orders sum_orders =
     bind_result (spmm adj tmp_orders) (\<lambda>tmp_orders.
     bind_result (index0 orders_para i) (\<lambda>p.
     bind_result (tmul (unsqueeze1 p) tmp_orders) (\<lambda>t.
     bind_result (tadd sum_orders t) (\<lambda>sum_orders.
     order3_loop orders_para is adj tmp_orders sum_orders))))"

definition order_func3 :: "mlp_norm \<Rightarrow> tensor \<Rightarrow> tensor \<Rightarrow> tensor \<Rightarrow> fault + tensor" where
  "order_func3 m x res adj =
     bind_result (mm x (orders_weight_matrix m)) (\<lambda>xw.
     bind_result (mm (relu xw) (orders_weight_matrix2 m)) (\<lambda>orders_para.
     let orders_para = transpose_t orders_para in
     bind_result (spmm adj res) (\<lambda>tmp_orders.
     bind_result (index0 orders_para 0) (\<lambda>p0.
     bind_result (tmul (unsqueeze1 p0) tmp_orders) (\<lambda>sum_orders.
     order3_loop orders_para [1..<nat (orders m)] adj tmp_orders sum_orders)))))"

definition order_func :: "mlp_norm \<Rightarrow> tensor \<Rightarrow> tensor \<Rightarrow> tensor \<Rightarrow> fault + tensor" where
  \<comment> \<open>\<^verbatim>\<open>self.order_func\<close>, bound in \<^verbatim>\<open>__init__\<close> from \<^verbatim>\<open>orders_func_id\<close>\<close>
  "order_func m =
     (if orders_func_id m = 1 then order_func1 m
      else if orders_func_id m = 2 then order_func2 m
      else order_func3 m)"

subsection \<open>The normalisation step: \<^verbatim>\<open>norm_func1\<close>, \<^verbatim>\<open>norm_func2\<close>\<close>

definition norm_func1 :: "mlp_norm \<Rightarrow> tensor \<Rightarrow> tensor \<Rightarrow> tensor \<Rightarrow> fault + tensor" where
  "norm_func1 m x h0 adj =
     bind_result (fdiv 1 (alpha m + beta m)) (\<lambda>coe.
     let coe1 = 1 - gamma m in
     bind_result (fdiv 1 coe1) (\<lambda>coe2.
     bind_result (mm (transpose_t x) x) (\<lambda>res.
     bind_result (tadd (smul (coe2 * coe2) (class_eye m)) (smul coe res)) (\<lambda>a.
     bind_result (torch_inverse a) (\<lambda>inv.
     bind_result (mm inv res) (\<lambda>res.
     bind_result (mm x res) (\<lambda>xres.
     bind_result (tsub (smul (coe1 * coe) x) (smul (coe1 * coe * coe) xres)) (\<lambda>res.
     bind_result (mm (transpose_t x) res) (\<lambda>tmp.
     bind_result (order_func m x res adj) (\<lambda>sum_orders.
     bind_result (mm x tmp) (\<lambda>xtmp.
     bind_result (tadd (smul coe1 xtmp) (smul (beta m) sum_orders)) (\<lambda>s1.
     bind_result (mm h0 tmp) (\<lambda>htmp.
     bind_result (tsub s1 (smul (gamma m * coe1) htmp)) (\<lambda>s2.
     tadd s2 (smul (gamma m) h0)))))))))))))))"

definition iadd :: "tensor \<Rightarrow> tensor \<Rightarrow> fault + tensor" where
  \<comment> \<open>\<^verbatim>\<open>a += b\<close>: the sum must have the shape of \<open>a\<close>, which is written in place\<close>
  "iadd a b =
     bind_result (tadd a b) (\<lambda>r.
     if nrows r = nrows a \<and> ncols r = ncols a then Inr r else Inl ShapeError)"

fun a_sum_loop :: "tensor \<Rightarrow> nat list \<Rightarrow> tensor \<Rightarrow> tensor \<Rightarrow> tensor \<Rightarrow> fault + tensor" where
  \<comment> \<open>the loop of the \<open>z\<close> block of \<^verbatim>\<open>norm_func2\<close>\<close>
  "a_sum_loop w [] adj adjk a_sum = Inr a_sum"
| "a_sum_loop w (i # is) adj adjk a_sum =
     bind_result (mm adjk adj) (\<lambda>adjk.
     bind_result (index0 w i) (\<lambda>wi.
     bind_result (tmul adjk (row_tensor wi)) (\<lambda>t.
     bind_result (iadd a_sum t) (\<lambda>a_sum.
     a_sum_loop w is adj adjk a_sum))))"

definition z_block :: "mlp_norm \<Rightarrow> real \<Rightarrow> tensor \<Rightarrow> tensor \<Rightarrow> tensor \<Rightarrow> fault + tensor" where
  \<comment> \<open>the lines of \<^verbatim>\<open>norm_func2\<close> under \<^verbatim>\<open># calculate z\<close>; \<open>coe1\<close> is the local of that name\<close>
  "z_block m coe1 x h0 adj =
     bind_result (mm x (transpose_t x)) (\<lambda>xx.
     bind_result (mm h0 (transpose_t x)) (\<lambda>hx.
     let adjk = adj in
     bind_result (index0 (orders_weight m) 0) (\<lambda>w0.
     bind_result (tmul adjk (row_tensor w0)) (\<lambda>a_sum.
     bind_result (a_sum_loop (orders_weight m) [1..<nat (orders m)] adj adjk a_sum) (\<lambda>a_sum.
     bind_result (tadd (smul coe1 xx) (smul (beta m) a_sum)) (\<lambda>s1.
     bind_result (tsub s1 (smul (gamma m * coe1) hx)) (\<lambda>lhs.
     bind_result (tadd (smul (coe1 * coe1) xx) (smul (alpha m + beta m) (nodes_eye m))) (\<lambda>b.
     bind_result (torch_inverse b) (\<lambda>binv.
     mm lhs binv)))))))))"

definition norm_func2 :: "mlp_norm \<Rightarrow> tensor \<Rightarrow> tensor \<Rightarrow> tensor \<Rightarrow> fault + tensor" where
  "norm_func2 m x h0 adj =
     bind_result (fdiv 1 (alpha m + beta m)) (\<lambda>coe.
     let coe1 = 1 - gamma m in
     bind_result (fdiv 1 coe1) (\<lambda>coe2.
     bind_result (mm (transpose_t x) x) (\<lambda>res.
     bind_result (tadd (smul (coe2 * coe2) (class_eye m)) (smul coe res)) (\<lambda>a.
     bind_result (torch_inverse a) (\<lambda>inv.
     bind_result (mm inv res) (\<lambda>res.
     bind_result (mm x res) (\<lambda>xres.
     bind_result (tsub (smul (coe1 * coe) x) (smul (coe1 * coe * coe) xres)) (\<lambda>d.
     bind_result (tmul d (transpose_t (diag_weight m))) (\<lambda>res.
     bind_result (mm (transpose_t x) res) (\<lambda>xtres.
     bind_result (tmul (diag_weight m) xtres) (\<lambda>tmp.
     bind_result (order_func m x res adj) (\<lambda>sum_orders.
     bind_result (mm x tmp) (\<lambda>xtmp.
     bind_result (tadd (smul coe1 xtmp) (smul (beta m) sum_orders)) (\<lambda>s1.
     bind_result (mm h0 tmp) (\<lambda>htmp.
     bind_result (tsub s1 (smul (gamma m * coe1) htmp)) (\<lambda>s2.
     bind_result (tadd s2 (smul (gamma m) h0)) (\<lambda>res.
     bind_result (z_block m coe1 x h0 adj) (\<lambda>z.
     Inr res))))))))))))))))))"

definition norm :: "mlp_norm \<Rightarrow> tensor \<Rightarrow> tensor \<Rightarrow> tensor \<Rightarrow> fault + tensor" where
  \<comment> \<open>\<^verbatim>\<open>self.norm\<close>, bound in \<^verbatim>\<open>__init__\<close> from \<^verbatim>\<open>norm_func_id\<close>\<close>
  "norm m = (if norm_func_id m = 1 then norm_func1 m else norm_func2 m)"

subsection \<open>The forward pass\<close>

text \<open>
  \<^verbatim>\<open>F.dropout\<close> draws a random mask. The draw is an argument of the model: \<open>keep i j\<close> tells
  whether entry \<open>(i, j)\<close> survives. A kept entry is scaled by \<open>1 / (1 - p)\<close>; with \<open>p = 0\<close>
  every entry is kept and with \<open>p = 1\<close> none.
\<close>

definition F_dropout :: "(nat \<Rightarrow> nat \<Rightarrow> bool) \<Rightarrow> tensor \<Rightarrow> real \<Rightarrow> bool \<Rightarrow> fault + tensor" where
  "F_dropout keep x p train =
     (if p < 0 \<or> 1 < p then Inl ValueError
      else if train
        then Inr (mk (nrows x) (ncols x)
                    (\<lambda>i j. if p < 1 \<and> (p = 0 \<or> keep i j) then ent x i j / (1 - p) else 0))
        else Inr x)"

definition forward_hidden ::
  "mlp_norm \<Rightarrow> (nat \<Rightarrow> nat \<Rightarrow> bool) \<Rightarrow> (nat \<Rightarrow> nat \<Rightarrow> bool) \<Rightarrow> tensor \<Rightarrow> tensor \<Rightarrow> fault + tensor" where
  \<comment> \<open>the first five statements of \<^verbatim>\<open>MLP_NORM.forward\<close>: the value of \<open>x\<close> handed to \<open>fc2\<close>\<close>
  "forward_hidden m keep1 keep2 x adj =
     bind_result (F_dropout keep1 x (dropout m) (training m)) (\<lambda>xX.
     bind_result (apply_linear (fc1 m) x) (\<lambda>xX.
     bind_result (apply_linear (fc3 m) adj) (\<lambda>xA.
     bind_result (tadd (smul (delta m) xX) (smul (1 - delta m) xA)) (\<lambda>s.
     let x = relu s in
     F_dropout keep2 x (dropout m) (training m)))))"

fun norm_loop :: "nat \<Rightarrow> mlp_norm \<Rightarrow> tensor \<Rightarrow> tensor \<Rightarrow> tensor \<Rightarrow> fault + tensor" where
  \<comment> \<open>\<^verbatim>\<open>for _ in range(self.norm_layers): x = self.norm(x, h0, adj)\<close>\<close>
  "norm_loop 0 m x h0 adj = Inr x"
| "norm_loop (Suc k) m x h0 adj = bind_result (norm m x h0 adj) (\<lambda>x. norm_loop k m x h0 adj)"

definition log_softmax :: "tensor \<Rightarrow> tensor" where
  \<comment> \<open>\<^verbatim>\<open>F.log_softmax(x, dim=1)\<close>\<close>
  "log_softmax x =
     mk (nrows x) (ncols x) (\<lambda>i j. ent x i j - ln (\<Sum>c<ncols x. exp (ent x i c)))"

definition forward ::
  "mlp_norm \<Rightarrow> (nat \<Rightarrow> nat \<Rightarrow> bool) \<Rightarrow> (nat \<Rightarrow> nat \<Rightarrow> bool) \<Rightarrow> tensor \<Rightarrow> tensor \<Rightarrow> fault + tensor" where
  "forward m keep1 keep2 x adj =
     bind_result (forward_hidden m keep1 keep2 x adj) (\<lambda>x.
     bind_result (apply_linear (fc2 m) x) (\<lambda>x.
     let h0 = x in
     bind_result (norm_loop (nat (norm_layers m)) m x h0 adj) (\<lambda>x.
     Inr (log_softmax x))))"

section \<open>Row normalisation: \<^verbatim>\<open>normalize\<close> and its two calls in \<^verbatim>\<open>load_data_new\<close>\<close>

datatype npfloat = Finite real | Infinity

definition np_power_m1 :: "real \<Rightarrow> npfloat" where
  \<comment> \<open>\<^verbatim>\<open>np.power(r, -1)\<close> on a float: \<^verbatim>\<open>inf\<close> at zero\<close>
  "np_power_m1 r = (if r = 0 then Infinity else Finite (1 / r))"

definition zero_where_isinf :: "npfloat \<Rightarrow> real" where
  \<comment> \<open>one entry of \<^verbatim>\<open>r_inv\<close> after \<^verbatim>\<open>r_inv[np.isinf(r_inv)] = 0.\<close>\<close>
  "zero_where_isinf v = (case v of Infinity \<Rightarrow> 0 | Finite r \<Rightarrow> r)"

definition row_sum :: "tensor \<Rightarrow> nat \<Rightarrow> real" where
  "row_sum mx i = (\<Sum>j<ncols mx. ent mx i j)"

definition diags :: "real list \<Rightarrow> tensor" where
  \<comment> \<open>\<^verbatim>\<open>sp.diags(v)\<close>: the square matrix with \<open>v\<close> on its diagonal\<close>
  "diags v = mk (length v) (length v) (\<lambda>i j. if i = j then v ! i else 0)"

definition normalize_mx :: "tensor \<Rightarrow> fault + tensor" where
  \<comment> \<open>\<^verbatim>\<open>normalize(mx)\<close>\<close>
  "normalize_mx mx =
     (let rowsum = map (row_sum mx) [0..<nrows mx];
          r_inv = map np_power_m1 rowsum;
          r_inv = map zero_where_isinf r_inv;
          r_mat_inv = diags r_inv
      in mm r_mat_inv mx)"

definition sp_add :: "tensor \<Rightarrow> tensor \<Rightarrow> fault + tensor" where
  \<comment> \<open>the sum of two scipy sparse matrices: no broadcasting\<close>
  "sp_add A B =
     (if nrows A = nrows B \<and> ncols A = ncols B
      then Inr (mk (nrows A) (ncols A) (\<lambda>i j. ent A i j + ent B i j))
      else Inl ShapeError)"

definition normalize_adj :: "tensor \<Rightarrow> fault + tensor" where
  \<comment> \<open>\<^verbatim>\<open>adj = normalize(adj + sp.eye(adj.shape[0]))\<close>\<close>
  "normalize_adj adj = bind_result (sp_add adj (eye (nrows adj))) normalize_mx"

definition nonneg :: "tensor \<Rightarrow> bool" where
  "nonneg T \<longleftrightarrow> list_all (list_all (\<lambda>v. 0 \<le> v)) (rows T)"

definition row_of :: "tensor \<Rightarrow> nat \<Rightarrow> real list" where
  "row_of T i = map (ent T i) [0..<ncols T]"

section \<open>The training loop\<close>

text \<open>
  The parameters of the model are tensors in a store: an address is an index into \<open>heap\<close>.
  \<^verbatim>\<open>model.state_dict()\<close> names the live tensors (it shares their storage),
  \<^verbatim>\<open>optimizer.step()\<close> writes them in place, and \<^verbatim>\<open>deepcopy\<close> allocates new tensors.
  The contents of a tensor are of any type \<open>'v\<close>. What the forward pass, the loss and the
  optimizer compute in an epoch is a parameter of the run (\<open>optimizer_step\<close>: the new contents
  of the live tensors, or the exception lines 541 to 547 raise), and so is what the
  validation metric returns or raises (\<open>metric_val\<close>). \<open>epochs_run\<close> counts the epochs begun;
  the source has no such variable.
\<close>

type_synonym state_dict = "(string \<times> nat) list"

record 'v train_state =
  heap :: "'v list"
  best_metric :: real
  patience :: int
  best_params :: "state_dict option"
  epochs_run :: nat

record 'v run =
  params :: state_dict
  optimizer_step :: "nat \<Rightarrow> 'v list \<Rightarrow> fault + 'v list"
  metric_val :: "nat \<Rightarrow> 'v list \<Rightarrow> fault + real"
  early_stopping :: int
  epochs :: int

datatype 'a control = Break 'a | Next 'a

definition read_dict :: "'v list \<Rightarrow> state_dict \<Rightarrow> 'v list" where
  "read_dict h sd = map (\<lambda>(name, a). h ! a) sd"

fun write_dict :: "'v list \<Rightarrow> state_dict \<Rightarrow> 'v list \<Rightarrow> 'v list" where
  \<comment> \<open>the in-place update of the live tensors\<close>
  "write_dict h ((name, a) # sd) (v # vs) = write_dict (h[a := v]) sd vs"
| "write_dict h sd vs = h"

definition deepcopy :: "'v list \<Rightarrow> state_dict \<Rightarrow> 'v list \<times> state_dict" where
  \<comment> \<open>new tensors at the end of the store, one for each entry, with the contents copied\<close>
  "deepcopy h sd =
     (h @ read_dict h sd, zip (map fst sd) [length h..<length h + length sd])"

definition initial_state :: "'v list \<Rightarrow> 'v train_state" where
  \<comment> \<open>\<^verbatim>\<open>best_metric = 0; patience = 0; best_params = None\<close>\<close>
  "initial_state h =
     \<lparr>heap = h, best_metric = 0, patience = 0, best_params = None, epochs_run = 0\<rparr>"

definition update_best :: "'v run \<Rightarrow> real \<Rightarrow> 'v train_state \<Rightarrow> 'v train_state" where
  \<comment> \<open>\<^verbatim>\<open>if metric_val > best_metric: ... else: patience += 1\<close>\<close>
  "update_best r mv s =
     (if mv > best_metric s
      then (case deepcopy (heap s) (params r) of
              (h, snapshot) \<Rightarrow>
                s\<lparr>heap := h, best_metric := mv, best_params := Some snapshot, patience := 0\<rparr>)
      else s\<lparr>patience := patience s + 1\<rparr>)"

definition train_step :: "'v run \<Rightarrow> nat \<Rightarrow> 'v train_state \<Rightarrow> fault + 'v train_state" where
  \<comment> \<open>lines 540 to 547: forward pass, loss, training metric, backward pass and
      \<^verbatim>\<open>optimizer.step()\<close>; an exception raised there leaves the loop and the program\<close>
  "train_step r epoch s =
     (case optimizer_step r epoch (read_dict (heap s) (params r)) of
        Inl e \<Rightarrow> Inl e
      | Inr vs \<Rightarrow>
          Inr (s\<lparr>heap := write_dict (heap s) (params r) vs, epochs_run := Suc (epochs_run s)\<rparr>))"

definition validate :: "'v run \<Rightarrow> nat \<Rightarrow> 'v train_state \<Rightarrow> 'v train_state control" where
  \<comment> \<open>lines 555 to 576: \<^verbatim>\<open>try: metric_val = ... except: break\<close>, the update of the best
      metric and of the patience counter, and \<^verbatim>\<open>if patience >= args.early_stopping: break\<close>\<close>
  "validate r epoch s =
     (case metric_val r epoch (read_dict (heap s) (params r)) of
        Inl e \<Rightarrow> Break s
      | Inr mv \<Rightarrow>
          let s = update_best r mv s
          in if patience s \<ge> early_stopping r then Break s else Next s)"

definition epoch_body :: "'v run \<Rightarrow> nat \<Rightarrow> 'v train_state \<Rightarrow> fault + 'v train_state control" where
  "epoch_body r epoch s =
     (case train_step r epoch s of
        Inl e \<Rightarrow> Inl e
      | Inr s \<Rightarrow> Inr (validate r epoch s))"

fun train_loop :: "'v run \<Rightarrow> nat list \<Rightarrow> 'v train_state \<Rightarrow> fault + 'v train_state" where
  \<comment> \<open>\<^verbatim>\<open>for epoch in range(args.epochs)\<close>, over the list of the remaining epochs\<close>
  "train_loop r [] s = Inr s"
| "train_loop r (epoch # rest) s =
     (case epoch_body r epoch s of
        Inl e \<Rightarrow> Inl e
      | Inr (Break s') \<Rightarrow> Inr s'
      | Inr (Next s') \<Rightarrow> train_loop r rest s')"

fun state_of :: "'a control \<Rightarrow> 'a" where
  "state_of (Break s) = s"
| "state_of (Next s) = s"

definition addresses :: "state_dict \<Rightarrow> nat set" where
  "addresses sd = set (map snd sd)"

definition never_improves :: "'v run \<Rightarrow> real \<Rightarrow> nat \<Rightarrow> nat \<Rightarrow> bool" where
  \<comment> \<open>in each of the \<open>n\<close> epochs from \<open>a\<close> on, whatever the parameters are, the training step
      raises nothing and the validation metric is computed and does not exceed \<open>best\<close>\<close>
  "never_improves r best a n \<longleftrightarrow>
     (\<forall>e\<in>{a..<a + n}. \<forall>vs.
        (\<exists>vs'. optimizer_step r e vs = Inr vs') \<and>
        (\<exists>mv. metric_val r e vs = Inr mv \<and> mv \<le> best))"

definition separate :: "'v run \<Rightarrow> 'v train_state \<Rightarrow> bool" where
  \<comment> \<open>the live tensors are allocated, and a snapshot shares no tensor with them\<close>
  "separate r s \<longleftrightarrow>
     (\<forall>a\<in>addresses (params r). a < length (heap s)) \<and>
     (case best_params s of
        None \<Rightarrow> True
      | Some snapshot \<Rightarrow>
          addresses snapshot \<inter> addresses (params r) = {} \<and>
          (\<forall>a\<in>addresses snapshot. a < length (heap s)))"

definition load_state_dict :: "'v run \<Rightarrow> 'v train_state \<Rightarrow> fault + 'v train_state" where
  \<comment> \<open>\<^verbatim>\<open>model.load_state_dict(best_params)\<close>: the contents of the snapshot are copied into the
      live tensors, entry by entry; \<^verbatim>\<open>None\<close> is no state dict\<close>
  "load_state_dict r s =
     (case best_params s of
        None \<Rightarrow> Inl TypeError
      | Some snapshot \<Rightarrow>
          Inr (s\<lparr>heap := write_dict (heap s) (params r) (read_dict (heap s) snapshot)\<rparr>))"

definition train :: "'v run \<Rightarrow> 'v list \<Rightarrow> fault + 'v train_state" where
  \<comment> \<open>the loop from its initial state, and the load of the best parameters after it\<close>
  "train r h =
     bind_result (train_loop r [0..<nat (epochs r)] (initial_state h)) (load_state_dict r)"

section \<open>The normalisation step on floats with \<^verbatim>\<open>inf\<close> and \<^verbatim>\<open>nan\<close>\<close>

text \<open>
  \<^verbatim>\<open>alpha\<close>, \<^verbatim>\<open>beta\<close> and \<^verbatim>\<open>gamma\<close> are zero-dimensional tensors, so \<^verbatim>\<open>1.0 / (alpha + beta)\<close> and
  \<^verbatim>\<open>1.0 / coe1\<close> in \<^verbatim>\<open>norm_func1\<close> raise nothing at a zero divisor: they give \<^verbatim>\<open>inf\<close>, and the
  function computes on. To follow it there the entries of a tensor are taken from the reals
  extended by \<^verbatim>\<open>inf\<close>, \<^verbatim>\<open>-inf\<close> and \<^verbatim>\<open>nan\<close>, with the arithmetic of IEEE 754 on them
  (\<^verbatim>\<open>inf * 0 = nan\<close>, \<^verbatim>\<open>inf - inf = nan\<close>, \<^verbatim>\<open>1 / inf = 0\<close>, \<^verbatim>\<open>nan\<close> absorbing). Finite values
  are still exact reals, and zero has no sign: \<^verbatim>\<open>1 - gamma\<close> is \<^verbatim>\<open>+0.0\<close> at \<^verbatim>\<open>gamma = 1\<close>.
  Every operation \<^verbatim>\<open>norm_func1\<close> calls is written again over these entries, with the same
  shape checks. \<^verbatim>\<open>torch.inverse\<close> is the cofactor formula in this arithmetic: it raises on an
  exact zero determinant only, maps the matrix \<^verbatim>\<open>[[inf]]\<close> to \<^verbatim>\<open>[[0]]\<close>, and returns \<^verbatim>\<open>nan\<close>
  entries where the determinant is \<^verbatim>\<open>nan\<close>. On a matrix of two or more rows with infinite
  entries the elimination of the library and the cofactor formula need not agree entry by
  entry; the results below apply the inverse to finite matrices, to \<^verbatim>\<open>[[inf]]\<close>, and to a
  matrix with a \<^verbatim>\<open>nan\<close> in every row and column, whose inverse is \<^verbatim>\<open>nan\<close> throughout either way.
\<close>

datatype xfloat = Fin real | PInf | NInf | NaN

fun xneg :: "xfloat \<Rightarrow> xfloat" where
  "xneg (Fin a) = Fin (- a)"
| "xneg PInf = NInf"
| "xneg NInf = PInf"
| "xneg NaN = NaN"

fun xadd :: "xfloat \<Rightarrow> xfloat \<Rightarrow> xfloat" where
  "xadd (Fin a) (Fin b) = Fin (a + b)"
| "xadd NaN y = NaN"
| "xadd x NaN = NaN"
| "xadd PInf NInf = NaN"
| "xadd NInf PInf = NaN"
| "xadd PInf y = PInf"
| "xadd x PInf = PInf"
| "xadd NInf y = NInf"
| "xadd x NInf = NInf"

definition xsub :: "xfloat \<Rightarrow> xfloat \<Rightarrow> xfloat" where
  "xsub x y = xadd x (xneg y)"

fun xmul :: "xfloat \<Rightarrow> xfloat \<Rightarrow> xfloat" where
  "xmul (Fin a) (Fin b) = Fin (a * b)"
| "xmul NaN y = NaN"
| "xmul x NaN = NaN"
| "xmul (Fin a) PInf = (if a = 0 then NaN else if 0 < a then PInf else NInf)"
| "xmul (Fin a) NInf = (if a = 0 then NaN else if 0 < a then NInf else PInf)"
| "xmul PInf (Fin b) = (if b = 0 then NaN else if 0 < b then PInf else NInf)"
| "xmul NInf (Fin b) = (if b = 0 then NaN else if 0 < b then NInf else PInf)"
| "xmul PInf PInf = PInf"
| "xmul PInf NInf = NInf"
| "xmul NInf PInf = NInf"
| "xmul NInf NInf = PInf"

fun xdiv :: "xfloat \<Rightarrow> xfloat \<Rightarrow> xfloat" where
  "xdiv (Fin a) (Fin b) =
     (if b \<noteq> 0 then Fin (a / b) else if a = 0 then NaN else if 0 < a then PInf else NInf)"
| "xdiv NaN y = NaN"
| "xdiv x NaN = NaN"
| "xdiv (Fin a) y = Fin 0"
| "xdiv PInf (Fin b) = (if 0 \<le> b then PInf else NInf)"
| "xdiv NInf (Fin b) = (if 0 \<le> b then NInf else PInf)"
| "xdiv x y = NaN"

fun xrelu :: "xfloat \<Rightarrow> xfloat" where
  "xrelu (Fin a) = Fin (max 0 a)"
| "xrelu PInf = PInf"
| "xrelu NInf = Fin 0"
| "xrelu NaN = NaN"

definition xsum :: "xfloat list \<Rightarrow> xfloat" where
  "xsum xs = foldr xadd xs (Fin 0)"

datatype xtensor = XTensor (xnrows: nat) (xncols: nat) (xrows: "xfloat list list")

definition xent :: "xtensor \<Rightarrow> nat \<Rightarrow> nat \<Rightarrow> xfloat" where
  "xent T i j = xrows T ! i ! j"

definition xmk :: "nat \<Rightarrow> nat \<Rightarrow> (nat \<Rightarrow> nat \<Rightarrow> xfloat) \<Rightarrow> xtensor" where
  "xmk n k f = XTensor n k (map (\<lambda>i. map (f i) [0..<k]) [0..<n])"

definition emb :: "tensor \<Rightarrow> xtensor" where
  \<comment> \<open>a tensor of finite numbers\<close>
  "emb T = xmk (nrows T) (ncols T) (\<lambda>i j. Fin (ent T i j))"

fun map_result :: "('a \<Rightarrow> 'b) \<Rightarrow> fault + 'a \<Rightarrow> fault + 'b" where
  "map_result f (Inl e) = Inl e"
| "map_result f (Inr v) = Inr (f v)"

definition x_mm :: "xtensor \<Rightarrow> xtensor \<Rightarrow> fault + xtensor" where
  "x_mm A B =
     (if xncols A = xnrows B
      then Inr (xmk (xnrows A) (xncols B)
                  (\<lambda>i j. xsum (map (\<lambda>l. xmul (xent A i l) (xent B l j)) [0..<xncols A])))
      else Inl ShapeError)"

definition x_spmm :: "xtensor \<Rightarrow> xtensor \<Rightarrow> fault + xtensor" where
  \<comment> \<open>the zeros of the sparse operand are not stored and take no part in the product\<close>
  "x_spmm A B =
     (if xncols A = xnrows B
      then Inr (xmk (xnrows A) (xncols B)
                  (\<lambda>i j. xsum (map (\<lambda>l. if xent A i l = Fin 0 then Fin 0
                                         else xmul (xent A i l) (xent B l j)) [0..<xncols A])))
      else Inl ShapeError)"

definition x_transpose :: "xtensor \<Rightarrow> xtensor" where
  "x_transpose A = xmk (xncols A) (xnrows A) (\<lambda>i j. xent A j i)"

definition x_smul :: "xfloat \<Rightarrow> xtensor \<Rightarrow> xtensor" where
  "x_smul c A = xmk (xnrows A) (xncols A) (\<lambda>i j. xmul c (xent A i j))"

definition x_relu :: "xtensor \<Rightarrow> xtensor" where
  "x_relu A = xmk (xnrows A) (xncols A) (\<lambda>i j. xrelu (xent A i j))"

definition xbent :: "xtensor \<Rightarrow> nat \<Rightarrow> nat \<Rightarrow> xfloat" where
  "xbent A i j = xent A (if xnrows A = 1 then 0 else i) (if xncols A = 1 then 0 else j)"

definition x_broadcast2 :: "(xfloat \<Rightarrow> xfloat \<Rightarrow> xfloat) \<Rightarrow> xtensor \<Rightarrow> xtensor \<Rightarrow> fault + xtensor" where
  "x_broadcast2 f A B =
     (case (bdim (xnrows A) (xnrows B), bdim (xncols A) (xncols B)) of
        (Some n, Some k) \<Rightarrow> Inr (xmk n k (\<lambda>i j. f (xbent A i j) (xbent B i j)))
      | _ \<Rightarrow> Inl ShapeError)"

definition x_tadd :: "xtensor \<Rightarrow> xtensor \<Rightarrow> fault + xtensor" where
  "x_tadd = x_broadcast2 xadd"

definition x_tsub :: "xtensor \<Rightarrow> xtensor \<Rightarrow> fault + xtensor" where
  "x_tsub = x_broadcast2 xsub"

definition x_tmul :: "xtensor \<Rightarrow> xtensor \<Rightarrow> fault + xtensor" where
  "x_tmul = x_broadcast2 xmul"

definition x_index0 :: "xtensor \<Rightarrow> nat \<Rightarrow> fault + xfloat list" where
  "x_index0 A i = (if i < xnrows A then Inr (map (xent A i) [0..<xncols A]) else Inl IndexError)"

definition x_row_tensor :: "xfloat list \<Rightarrow> xtensor" where
  "x_row_tensor v = xmk 1 (length v) (\<lambda>i j. v ! j)"

definition x_unsqueeze1 :: "xfloat list \<Rightarrow> xtensor" where
  "x_unsqueeze1 v = xmk (length v) 1 (\<lambda>i j. v ! i)"

fun x_det :: "nat \<Rightarrow> (nat \<Rightarrow> nat \<Rightarrow> xfloat) \<Rightarrow> xfloat" where
  "x_det 0 f = Fin 1"
| "x_det (Suc n) f =
     xsum (map (\<lambda>j. xmul (xmul (Fin ((- 1) ^ j)) (f 0 j)) (x_det n (\<lambda>r c. f (Suc r) (skip j c))))
             [0..<Suc n])"

definition x_cofactor :: "nat \<Rightarrow> (nat \<Rightarrow> nat \<Rightarrow> xfloat) \<Rightarrow> nat \<Rightarrow> nat \<Rightarrow> xfloat" where
  "x_cofactor n f i j = xmul (Fin ((- 1) ^ (i + j))) (x_det (n - 1) (\<lambda>r c. f (skip i r) (skip j c)))"

definition x_inverse :: "xtensor \<Rightarrow> fault + xtensor" where
  "x_inverse A =
     (if xnrows A \<noteq> xncols A then Inl ShapeError
      else if x_det (xnrows A) (xent A) = Fin 0 then Inl SingularMatrix
      else Inr (xmk (xnrows A) (xnrows A)
                  (\<lambda>i j. xdiv (x_cofactor (xnrows A) (xent A) j i) (x_det (xnrows A) (xent A)))))"

fun x_order1_loop :: "nat \<Rightarrow> xtensor \<Rightarrow> xtensor \<Rightarrow> xtensor \<Rightarrow> fault + xtensor" where
  "x_order1_loop 0 adj tmp_orders sum_orders = Inr sum_orders"
| "x_order1_loop (Suc k) adj tmp_orders sum_orders =
     bind_result (x_spmm adj tmp_orders) (\<lambda>tmp_orders.
     bind_result (x_tadd sum_orders tmp_orders) (\<lambda>sum_orders.
     x_order1_loop k adj tmp_orders sum_orders))"

definition x_order_func1 :: "mlp_norm \<Rightarrow> xtensor \<Rightarrow> xtensor \<Rightarrow> xtensor \<Rightarrow> fault + xtensor" where
  "x_order_func1 m x res adj = x_order1_loop (nat (orders m)) adj res res"

fun x_order2_loop :: "xtensor \<Rightarrow> nat list \<Rightarrow> xtensor \<Rightarrow> xtensor \<Rightarrow> xtensor \<Rightarrow> fault + xtensor" where
  "x_order2_loop w [] adj tmp_orders sum_orders = Inr sum_orders"
| "x_order2_loop w (i # is) adj tmp_orders sum_orders =
     bind_result (x_spmm adj tmp_orders) (\<lambda>tmp_orders.
     bind_result (x_index0 w i) (\<lambda>wi.
     bind_result (x_tmul tmp_orders (x_row_tensor wi)) (\<lambda>t.
     bind_result (x_tadd sum_orders t) (\<lambda>sum_orders.
     x_order2_loop w is adj tmp_orders sum_orders))))"

definition x_order_func2 :: "mlp_norm \<Rightarrow> xtensor \<Rightarrow> xtensor \<Rightarrow> xtensor \<Rightarrow> fault + xtensor" where
  "x_order_func2 m x res adj =
     bind_result (x_spmm adj res) (\<lambda>tmp_orders.
     bind_result (x_index0 (emb (orders_weight m)) 0) (\<lambda>w0.
     bind_result (x_tmul tmp_orders (x_row_tensor w0)) (\<lambda>sum_orders.
     x_order2_loop (emb (orders_weight m)) [1..<nat (orders m)] adj tmp_orders sum_orders)))"

fun x_order3_loop :: "xtensor \<Rightarrow> nat list \<Rightarrow> xtensor \<Rightarrow> xtensor \<Rightarrow> xtensor \<Rightarrow> fault + xtensor" where
  "x_order3_loop orders_para [] adj tmp_orders sum_orders = Inr sum_orders"
| "x_order3_loop orders_para (i # is) adj tmp_orders sum_orders =
     bind_result (x_spmm adj tmp_orders) (\<lambda>tmp_orders.
     bind_result (x_index0 orders_para i) (\<lambda>p.
     bind_result (x_tmul (x_unsqueeze1 p) tmp_orders) (\<lambda>t.
     bind_result (x_tadd sum_orders t) (\<lambda>sum_orders.
     x_order3_loop orders_para is adj tmp_orders sum_orders))))"

definition x_order_func3 :: "mlp_norm \<Rightarrow> xtensor \<Rightarrow> xtensor \<Rightarrow> xtensor \<Rightarrow> fault + xtensor" where
  "x_order_func3 m x res adj =
     bind_result (x_mm x (emb (orders_weight_matrix m))) (\<lambda>xw.
     bind_result (x_mm (x_relu xw) (emb (orders_weight_matrix2 m))) (\<lambda>orders_para.
     let orders_para = x_transpose orders_para in
     bind_result (x_spmm adj res) (\<lambda>tmp_orders.
     bind_result (x_index0 orders_para 0) (\<lambda>p0.
     bind_result (x_tmul (x_unsqueeze1 p0) tmp_orders) (\<lambda>sum_orders.
     x_order3_loop orders_para [1..<nat (orders m)] adj tmp_orders sum_orders)))))"

definition x_order_func :: "mlp_norm \<Rightarrow> xtensor \<Rightarrow> xtensor \<Rightarrow> xtensor \<Rightarrow> fault + xtensor" where
  "x_order_func m =
     (if orders_func_id m = 1 then x_order_func1 m
      else if orders_func_id m = 2 then x_order_func2 m
      else x_order_func3 m)"

definition norm_func1_ieee :: "mlp_norm \<Rightarrow> xtensor \<Rightarrow> xtensor \<Rightarrow> xtensor \<Rightarrow> fault + xtensor" where
  "norm_func1_ieee m x h0 adj =
     (let coe = xdiv (Fin 1) (Fin (alpha m + beta m));
          coe1 = Fin (1 - gamma m);
          coe2 = xdiv (Fin 1) coe1 in
     bind_result (x_mm (x_transpose x) x) (\<lambda>res.
     bind_result (x_tadd (x_smul (xmul coe2 coe2) (emb (class_eye m))) (x_smul coe res)) (\<lambda>a.
     bind_result (x_inverse a) (\<lambda>inv.
     bind_result (x_mm inv res) (\<lambda>res.
     bind_result (x_mm x res) (\<lambda>xres.
     bind_result (x_tsub (x_smul (xmul coe1 coe) x) (x_smul (xmul (xmul coe1 coe) coe) xres)) (\<lambda>res.
     bind_result (x_mm (x_transpose x) res) (\<lambda>tmp.
     bind_result (x_order_func m x res adj) (\<lambda>sum_orders.
     bind_result (x_mm x tmp) (\<lambda>xtmp.
     bind_result (x_tadd (x_smul coe1 xtmp) (x_smul (Fin (beta m)) sum_orders)) (\<lambda>s1.
     bind_result (x_mm h0 tmp) (\<lambda>htmp.
     bind_result (x_tsub s1 (x_smul (xmul (Fin (gamma m)) coe1) htmp)) (\<lambda>s2.
     x_tadd s2 (x_smul (Fin (gamma m)) h0))))))))))))))"

section \<open>The formulas of the specification\<close>

text \<open>
  The specification states what the propagation, the normalisation step, the forward pass
  and the row normalisation return. Its formulas are written here with the operations of
  linear algebra, which check no shape and raise nothing, to be compared with what the code
  computes.
\<close>

definition mat_add :: "tensor \<Rightarrow> tensor \<Rightarrow> tensor" where
  "mat_add A B = mk (nrows A) (ncols A) (\<lambda>i j. ent A i j + ent B i j)"

definition mat_sub :: "tensor \<Rightarrow> tensor \<Rightarrow> tensor" where
  "mat_sub A B = mk (nrows A) (ncols A) (\<lambda>i j. ent A i j - ent B i j)"

fun mat_pow :: "tensor \<Rightarrow> nat \<Rightarrow> tensor" where
  "mat_pow A 0 = eye (nrows A)"
| "mat_pow A (Suc k) = mat_mul A (mat_pow A k)"

definition spec_strategy1 :: "tensor \<Rightarrow> tensor \<Rightarrow> nat \<Rightarrow> tensor" where
  \<comment> \<open>\<open>R + \<Sum>\<^bsub>k=1..K\<^esub> A\<^sup>k R\<close>\<close>
  "spec_strategy1 A R K =
     mk (nrows R) (ncols R) (\<lambda>i j. ent R i j + (\<Sum>k = 1..K. ent (mat_mul (mat_pow A k) R) i j))"

definition spec_coe :: "mlp_norm \<Rightarrow> real" where
  "spec_coe m = 1 / (alpha m + beta m)"

definition spec_coe1 :: "mlp_norm \<Rightarrow> real" where
  "spec_coe1 m = 1 - gamma m"

definition spec_coe2 :: "mlp_norm \<Rightarrow> real" where
  "spec_coe2 m = 1 / spec_coe1 m"

definition spec_gram :: "tensor \<Rightarrow> tensor" where
  \<comment> \<open>\<open>G = X\<^sup>T X\<close>\<close>
  "spec_gram X = mat_mul (transpose_t X) X"

definition spec_bracket :: "mlp_norm \<Rightarrow> tensor \<Rightarrow> tensor" where
  \<comment> \<open>\<open>coe2\<^sup>2 I\<^sub>C + coe G\<close>, the matrix that is inverted\<close>
  "spec_bracket m X =
     mat_add (smul ((spec_coe2 m)\<^sup>2) (eye (ncols X))) (smul (spec_coe m) (spec_gram X))"

definition spec_corrected :: "mlp_norm \<Rightarrow> tensor \<Rightarrow> tensor" where
  \<comment> \<open>\<open>corrected = coe1 coe X - coe1 coe\<^sup>2 X (inv G)\<close>\<close>
  "spec_corrected m X =
     mat_sub (smul (spec_coe1 m * spec_coe m) X)
       (smul (spec_coe1 m * (spec_coe m)\<^sup>2)
          (mat_mul X (mat_mul (mat_inverse (spec_bracket m X)) (spec_gram X))))"

definition spec_update :: "mlp_norm \<Rightarrow> tensor \<Rightarrow> tensor \<Rightarrow> tensor \<Rightarrow> tensor \<Rightarrow> tensor" where
  \<comment> \<open>\<open>X' = coe1 (X tmp) + beta propagated - gamma coe1 (H0 tmp) + gamma H0\<close>\<close>
  "spec_update m X H0 tmp propagated =
     mat_add
       (mat_sub
          (mat_add (smul (spec_coe1 m) (mat_mul X tmp)) (smul (beta m) propagated))
          (smul (gamma m * spec_coe1 m) (mat_mul H0 tmp)))
       (smul (gamma m) H0)"

definition spec_norm1 :: "mlp_norm \<Rightarrow> tensor \<Rightarrow> tensor \<Rightarrow> tensor \<Rightarrow> tensor" where
  \<comment> \<open>the result of variant 1, with \<open>tmp = X\<^sup>T corrected\<close>\<close>
  "spec_norm1 m X H0 propagated =
     spec_update m X H0 (mat_mul (transpose_t X) (spec_corrected m X)) propagated"

definition spec_beta0 :: "mlp_norm \<Rightarrow> tensor \<Rightarrow> tensor \<Rightarrow> tensor" where
  \<comment> \<open>the update without the propagation term:
      \<open>coe1 (X tmp) - gamma coe1 (H0 tmp) + gamma H0\<close> with \<open>tmp = X\<^sup>T corrected\<close>\<close>
  "spec_beta0 m X H0 =
     (let tmp = mat_mul (transpose_t X) (spec_corrected m X)
      in mat_add
           (mat_sub (smul (spec_coe1 m) (mat_mul X tmp))
              (smul (gamma m * spec_coe1 m) (mat_mul H0 tmp)))
           (smul (gamma m) H0))"





definition spec_forward_hidden ::
  "mlp_norm \<Rightarrow> (nat \<Rightarrow> nat \<Rightarrow> bool) \<Rightarrow> (nat \<Rightarrow> nat \<Rightarrow> bool) \<Rightarrow> tensor \<Rightarrow> tensor \<Rightarrow> fault + tensor" where
  \<comment> \<open>the embedding as the specification describes it: dropout on the features, then
      \<open>ReLU(delta Linear1(features) + (1 - delta) Linear2(adjacency))\<close>, then dropout\<close>
  "spec_forward_hidden m keep1 keep2 features adj =
     bind_result (F_dropout keep1 features (dropout m) (training m)) (\<lambda>dropped.
     bind_result (apply_linear (fc1 m) dropped) (\<lambda>xX.
     bind_result (apply_linear (fc3 m) adj) (\<lambda>xA.
     bind_result (tadd (smul (delta m) xX) (smul (1 - delta m) xA)) (\<lambda>s.
     F_dropout keep2 (relu s) (dropout m) (training m)))))"

definition row_normalized :: "tensor \<Rightarrow> tensor \<Rightarrow> bool" where
  \<comment> \<open>\<open>T\<close> is \<open>mx\<close> with each row divided by its sum, and a row of sum zero set to zero\<close>
  "row_normalized mx T \<longleftrightarrow>
     has_shape (nrows mx) (ncols mx) T \<and>
     (\<forall>i\<in>{..<nrows mx}. row_of T i =
        (if row_sum mx i = 0 then replicate (ncols mx) 0
         else map (\<lambda>v. v / row_sum mx i) (row_of mx i)))"

definition rows_sum_to_1_or_0 :: "tensor \<Rightarrow> tensor \<Rightarrow> bool" where
  \<comment> \<open>every row of \<open>T\<close> sums to 1 or to 0, and to 0 only where the row of \<open>mx\<close> is all zeros\<close>
  "rows_sum_to_1_or_0 mx T \<longleftrightarrow>
     (\<forall>i\<in>{..<nrows mx}. (row_sum T i = 1 \<or> row_sum T i = 0) \<and>
        (row_sum T i = 0 \<longrightarrow> row_of mx i = replicate (ncols mx) 0))"

section \<open>Notions used in the statements\<close>

definition returns_shape :: "nat \<Rightarrow> nat \<Rightarrow> fault + tensor \<Rightarrow> bool" where
  "returns_shape n k r = (case r of Inl e \<Rightarrow> False | Inr T \<Rightarrow> has_shape n k T)"

definition r_inv_of :: "tensor \<Rightarrow> nat \<Rightarrow> real" where
  \<comment> \<open>the factor row \<open>i\<close> is multiplied by\<close>
  "r_inv_of mx i = (if row_sum mx i = 0 then 0 else 1 / row_sum mx i)"

definition norm1_tail :: "mlp_norm \<Rightarrow> tensor \<Rightarrow> tensor \<Rightarrow> tensor \<Rightarrow> tensor \<Rightarrow> fault + tensor" where
  \<comment> \<open>the last assignment of \<^verbatim>\<open>norm_func1\<close> and \<^verbatim>\<open>norm_func2\<close>, as a function of \<open>tmp\<close> and
      \<open>sum_orders\<close>\<close>
  "norm1_tail m x h0 tmp sum_orders =
     bind_result (mm x tmp) (\<lambda>xtmp.
     bind_result (tadd (smul (1 - gamma m) xtmp) (smul (beta m) sum_orders)) (\<lambda>s1.
     bind_result (mm h0 tmp) (\<lambda>htmp.
     bind_result (tsub s1 (smul (gamma m * (1 - gamma m)) htmp)) (\<lambda>s2.
     tadd s2 (smul (gamma m) h0)))))"


section \<open>Data for the worked instances\<close>

text \<open>
  A graph of two nodes and two classes, a model for it, and a training run with one
  parameter tensor. Each theorem below that has hypotheses is instantiated on these values.
\<close>

definition demo_adj :: tensor where
  "demo_adj = Tensor 2 2 [[1/2, 1/2], [0, 1]]"

definition demo_features :: tensor where
  "demo_features = Tensor 2 1 [[1], [2]]"

definition demo_x :: tensor where
  "demo_x = Tensor 2 2 [[1, 0], [1, 2]]"

definition demo_h0 :: tensor where
  "demo_h0 = Tensor 2 2 [[1, 1], [0, 2]]"

definition demo_model :: mlp_norm where
  "demo_model =
     \<lparr>fc1 = \<lparr>weight = Tensor 1 1 [[1]], bias = [0]\<rparr>,
      fc2 = \<lparr>weight = Tensor 2 1 [[1], [- 1]], bias = [0, 0]\<rparr>,
      fc3 = \<lparr>weight = Tensor 1 2 [[0, 0]], bias = [0]\<rparr>,
      nclass = 2, dropout = 1/2, alpha = 1, beta = 1, gamma = 1/2, delta = 1,
      norm_layers = 2, orders = 2,
      class_eye = eye 2, nodes_eye = eye 2,
      orders_weight = Tensor 2 1 [[1/2], [1/2]],
      orders_weight_matrix = Tensor 2 2 [[1, 0], [0, 1]],
      orders_weight_matrix2 = Tensor 2 2 [[1, 0], [0, 1]],
      diag_weight = Tensor 2 1 [[1/2], [1/2]],
      norm_func_id = 1, orders_func_id = 1, training = True\<rparr>"

definition demo_model0 :: mlp_norm where
  \<comment> \<open>the model of the same graph built with \<open>orders = 0\<close>\<close>
  "demo_model0 =
     demo_model\<lparr>orders := 0, orders_weight := Tensor 0 1 [],
       orders_weight_matrix := Tensor 2 0 [[], []], orders_weight_matrix2 := Tensor 0 0 []\<rparr>"

definition demo_model_beta0 :: mlp_norm where
  "demo_model_beta0 = demo_model\<lparr>beta := 0\<rparr>"

definition demo_model_gamma1 :: mlp_norm where
  "demo_model_gamma1 = demo_model\<lparr>beta := 0, gamma := 1\<rparr>"

definition keep_first_row :: "nat \<Rightarrow> nat \<Rightarrow> bool" where
  \<comment> \<open>a draw of the mask that keeps the entries of node 0 and drops all others\<close>
  "keep_first_row i j \<longleftrightarrow> i = 0"

definition keep_all :: "nat \<Rightarrow> nat \<Rightarrow> bool" where
  "keep_all i j \<longleftrightarrow> True"

definition demo_raw_features :: tensor where
  "demo_raw_features = Tensor 2 2 [[1, 3], [0, 0]]"

definition demo_signed_features :: tensor where
  \<comment> \<open>the first row sums to zero and is not the zero row\<close>
  "demo_signed_features = Tensor 2 2 [[1, - 1], [1, 3]]"

definition demo_raw_adj :: tensor where
  "demo_raw_adj = Tensor 2 2 [[0, 1], [0, 0]]"

definition demo_run :: "real run" where
  \<comment> \<open>one parameter tensor; the metric improves at epoch 0 only and raises at epoch 3\<close>
  "demo_run =
     \<lparr>params = [(''fc1.weight'', 0)],
      optimizer_step = (\<lambda>e vs. Inr (map (\<lambda>v. v + 1) vs)),
      metric_val = (\<lambda>e vs. if e = 0 then Inr (1/2) else if e = 3 then Inl MetricError else Inr (1/4)),
      early_stopping = 2, epochs = 5\<rparr>"

definition demo_state :: "real train_state" where
  \<comment> \<open>the state of \<open>demo_run\<close> after epoch 0\<close>
  "demo_state = \<lparr>heap = [2, 2], best_metric = 1/2, patience = 0,
                 best_params = Some [(''fc1.weight'', 1)], epochs_run = 1\<rparr>"

definition demo_model_singular :: mlp_norm where
  \<comment> \<open>\<open>alpha + beta = - 1\<close> and \<open>gamma = 0\<close>: \<open>coe = - 1\<close>, \<open>coe2 = 1\<close>\<close>
  "demo_model_singular = demo_model\<lparr>alpha := - 1/2, beta := - 1/2, gamma := 0\<rparr>"

definition demo_model0_strategy2 :: mlp_norm where
  \<comment> \<open>built with \<open>orders = 0\<close> and Strategy 2\<close>
  "demo_model0_strategy2 = demo_model0\<lparr>orders_func_id := 2\<rparr>"

definition demo_unit_x :: tensor where
  "demo_unit_x = Tensor 2 2 [[1, 0], [0, 1]]"

definition demo_model_one_class :: mlp_norm where
  \<comment> \<open>one class, \<open>beta = 0\<close> and \<open>gamma = 1\<close>\<close>
  "demo_model_one_class =
     demo_model\<lparr>fc2 := \<lparr>weight = Tensor 1 1 [[1]], bias = [0]\<rparr>, nclass := 1,
       beta := 0, gamma := 1, class_eye := eye 1,
       orders_weight_matrix := Tensor 1 2 [[1, 0]], diag_weight := Tensor 1 1 [[1]]\<rparr>"

definition demo_x1 :: tensor where
  "demo_x1 = Tensor 2 1 [[1], [3]]"

definition demo_h01 :: tensor where
  "demo_h01 = Tensor 2 1 [[5], [7]]"

section \<open>Facts about tensors\<close>

lemma nrows_mk [simp]: "nrows (mk n k f) = n"
  by (simp add: mk_def)

lemma ncols_mk [simp]: "ncols (mk n k f) = k"
  by (simp add: mk_def)

lemma wf_mk [simp]: "wf_tensor (mk n k f)"
  by (simp add: wf_tensor_def mk_def list_all_iff)

lemma ent_mk [simp]: "i < n \<Longrightarrow> j < k \<Longrightarrow> ent (mk n k f) i j = f i j"
  by (simp add: ent_def mk_def)

lemma has_shape_mk [simp]: "has_shape n' k' (mk n k f) \<longleftrightarrow> n' = n \<and> k' = k"
  by (auto simp: has_shape_def)

lemma mk_cong: "(\<And>i j. i < n \<Longrightarrow> j < k \<Longrightarrow> f i j = g i j) \<Longrightarrow> mk n k f = mk n k g"
  by (simp add: mk_def)

lemma mk_ent: "wf_tensor T \<Longrightarrow> mk (nrows T) (ncols T) (ent T) = T"
proof -
  assume w: "wf_tensor T"
  have "map (\<lambda>i. map (ent T i) [0..<ncols T]) [0..<nrows T] = rows T"
  proof (rule nth_equalityI)
    show "length (map (\<lambda>i. map (ent T i) [0..<ncols T]) [0..<nrows T]) = length (rows T)"
      using w by (simp add: wf_tensor_def)
  next
    fix i assume "i < length (map (\<lambda>i. map (ent T i) [0..<ncols T]) [0..<nrows T])"
    then have i: "i < nrows T" by simp
    then have "length (rows T ! i) = ncols T"
      using w by (simp add: wf_tensor_def list_all_length)
    then have "map (ent T i) [0..<ncols T] = rows T ! i"
      by (intro nth_equalityI) (simp_all add: ent_def)
    then show "map (\<lambda>i. map (ent T i) [0..<ncols T]) [0..<nrows T] ! i = rows T ! i"
      using i by simp
  qed
  then show ?thesis
    by (cases T) (simp add: mk_def)
qed

lemma has_shape_mk_ent: "has_shape n k T \<Longrightarrow> mk n k (ent T) = T"
  using mk_ent by (auto simp: has_shape_def)

lemma nrows_mat_mul [simp]: "nrows (mat_mul A B) = nrows A"
  by (simp add: mat_mul_def)

lemma ncols_mat_mul [simp]: "ncols (mat_mul A B) = ncols B"
  by (simp add: mat_mul_def)

lemma wf_mat_mul [simp]: "wf_tensor (mat_mul A B)"
  by (simp add: mat_mul_def)

lemma ent_mat_mul:
  "i < nrows A \<Longrightarrow> j < ncols B \<Longrightarrow> ent (mat_mul A B) i j = (\<Sum>l<ncols A. ent A i l * ent B l j)"
  by (simp add: mat_mul_def)

lemma mat_mul_assoc:
  assumes "ncols A = nrows B"
  shows "mat_mul A (mat_mul B C) = mat_mul (mat_mul A B) C"
proof -
  have "(\<Sum>l<ncols A. ent A i l * ent (mat_mul B C) l j)
        = (\<Sum>p<ncols B. ent (mat_mul A B) i p * ent C p j)"
    if "i < nrows A" "j < ncols C" for i j
  proof -
    have "(\<Sum>l<ncols A. ent A i l * ent (mat_mul B C) l j)
          = (\<Sum>l<ncols A. \<Sum>p<ncols B. ent A i l * (ent B l p * ent C p j))"
      using that assms by (simp add: ent_mat_mul sum_distrib_left)
    also have "\<dots> = (\<Sum>p<ncols B. \<Sum>l<ncols A. ent A i l * (ent B l p * ent C p j))"
      by (rule sum.swap)
    also have "\<dots> = (\<Sum>p<ncols B. ent (mat_mul A B) i p * ent C p j)"
      using that by (simp add: ent_mat_mul sum_distrib_right mult.assoc)
    finally show ?thesis .
  qed
  then have "mk (nrows A) (ncols C) (\<lambda>i j. \<Sum>l<ncols A. ent A i l * ent (mat_mul B C) l j)
           = mk (nrows A) (ncols C) (\<lambda>i j. \<Sum>p<ncols B. ent (mat_mul A B) i p * ent C p j)"
    by (rule mk_cong)
  then show ?thesis
    by (simp add: mat_mul_def[of A "mat_mul B C"] mat_mul_def[of "mat_mul A B" C])
qed


lemma bent_eq [simp]: "i < nrows A \<Longrightarrow> j < ncols A \<Longrightarrow> bent A i j = ent A i j"
  by (auto simp: bent_def)

lemma broadcast2_same:
  assumes "nrows A = nrows B" "ncols A = ncols B"
  shows "broadcast2 f A B = Inr (mk (nrows A) (ncols A) (\<lambda>i j. f (ent A i j) (ent B i j)))"
proof -
  have "mk (nrows A) (ncols A) (\<lambda>i j. f (bent A i j) (bent B i j))
        = mk (nrows A) (ncols A) (\<lambda>i j. f (ent A i j) (ent B i j))"
    using assms by (intro mk_cong) simp
  then show ?thesis
    using assms by (simp add: broadcast2_def bdim_def)
qed

lemma tadd_same: "nrows A = nrows B \<Longrightarrow> ncols A = ncols B \<Longrightarrow> tadd A B = Inr (mat_add A B)"
  by (simp add: tadd_def mat_add_def broadcast2_same)

lemma tsub_same: "nrows A = nrows B \<Longrightarrow> ncols A = ncols B \<Longrightarrow> tsub A B = Inr (mat_sub A B)"
  by (simp add: tsub_def mat_sub_def broadcast2_same)

lemma nrows_mat_add [simp]: "nrows (mat_add A B) = nrows A"
  by (simp add: mat_add_def)

lemma ncols_mat_add [simp]: "ncols (mat_add A B) = ncols A"
  by (simp add: mat_add_def)

lemma nrows_mat_sub [simp]: "nrows (mat_sub A B) = nrows A"
  by (simp add: mat_sub_def)

lemma ncols_mat_sub [simp]: "ncols (mat_sub A B) = ncols A"
  by (simp add: mat_sub_def)

lemma nrows_eye [simp]: "nrows (eye n) = n"
  by (simp add: eye_def)

lemma ncols_eye [simp]: "ncols (eye n) = n"
  by (simp add: eye_def)

lemma nrows_mat_pow [simp]: "nrows (mat_pow A k) = nrows A"
  by (cases k) simp_all

lemma mat_mul_eye:
  assumes "has_shape n h R"
  shows "mat_mul (eye n) R = R"
proof -
  have "mk n h (\<lambda>i j. \<Sum>l<n. ent (eye n) i l * ent R l j) = mk n h (ent R)"
  proof (rule mk_cong)
    fix i j assume i: "i < n" and "j < h"
    have "(\<Sum>l<n. ent (eye n) i l * ent R l j) = (\<Sum>l<n. if i = l then ent R l j else 0)"
      using i by (intro sum.cong) (auto simp: eye_def)
    also have "\<dots> = ent R i j"
      using i by simp
    finally show "(\<Sum>l<n. ent (eye n) i l * ent R l j) = ent R i j" .
  qed
  then show ?thesis
    using assms has_shape_mk_ent[OF assms] by (simp add: mat_mul_def has_shape_def)
qed

text \<open>
  The model of \<^verbatim>\<open>torch.inverse\<close> returns an inverse; this is checked for the matrices of two
  classes, the size of the worked instances.
\<close>

lemma det_2: "det 2 f = f 0 0 * f 1 1 - f 0 1 * f 1 0"
  by (simp add: numeral_2_eq_2 skip_def)

lemma cofactor_2: "cofactor 2 f a b = (- 1) ^ (a + b) * f (skip a 0) (skip b 0)"
  by (simp add: cofactor_def)

lemma adj_over_det:
  fixes a b c e d :: real
  assumes "d \<noteq> 0" and "d = a * e - b * c"
  shows "a * (e / d) + b * (- c / d) = 1"
proof -
  have "a * (e / d) + b * (- c / d) = (a * e - b * c) / d"
    by (simp add: diff_divide_distrib)
  then show ?thesis
    using assms by simp
qed

lemma mat_inverse_2x2:
  assumes "has_shape 2 2 A" and "det 2 (ent A) \<noteq> 0"
  shows "mat_mul A (mat_inverse A) = eye 2"
proof -
  define d where "d = ent A 0 0 * ent A 1 1 - ent A 0 1 * ent A 1 0"
  have dims: "nrows A = 2" "ncols A = 2"
    using assms(1) by (simp_all add: has_shape_def)
  have nz: "d \<noteq> 0"
    using assms(2) by (simp add: det_2 d_def)
  have inv: "ent (mat_inverse A) 0 0 = ent A 1 1 / d" "ent (mat_inverse A) 0 1 = - ent A 0 1 / d"
    "ent (mat_inverse A) 1 0 = - ent A 1 0 / d" "ent (mat_inverse A) 1 1 = ent A 0 0 / d"
    by (simp_all add: mat_inverse_def dims det_2 cofactor_2 skip_def d_def)
  have sum2: "(\<Sum>l<2. g l) = g 0 + g 1" for g :: "nat \<Rightarrow> real"
    by (simp add: numeral_2_eq_2)
  have e00: "ent A 0 0 * (ent A 1 1 / d) + ent A 0 1 * (- ent A 1 0 / d) = 1"
    using nz by (intro adj_over_det) (simp_all add: d_def)
  have e01: "ent A 0 0 * (- ent A 0 1 / d) + ent A 0 1 * (ent A 0 0 / d) = 0"
    using nz by (simp add: field_simps)
  have e10: "ent A 1 0 * (ent A 1 1 / d) + ent A 1 1 * (- ent A 1 0 / d) = 0"
    using nz by (simp add: field_simps)
  have e11: "ent A 1 0 * (- ent A 0 1 / d) + ent A 1 1 * (ent A 0 0 / d) = 1"
    using adj_over_det[of d "ent A 1 1" "ent A 0 0" "ent A 0 1" "ent A 1 0"] nz
    by (simp add: d_def mult.commute add.commute)
  have s00: "(\<Sum>l<2. ent A 0 l * ent (mat_inverse A) l 0) = 1"
    unfolding sum2 inv by (rule e00)
  have s01: "(\<Sum>l<2. ent A 0 l * ent (mat_inverse A) l 1) = 0"
    unfolding sum2 inv by (rule e01)
  have s10: "(\<Sum>l<2. ent A 1 l * ent (mat_inverse A) l 0) = 0"
    unfolding sum2 inv by (rule e10)
  have s11: "(\<Sum>l<2. ent A 1 l * ent (mat_inverse A) l 1) = 1"
    unfolding sum2 inv by (rule e11)
  have "(\<Sum>l<2. ent A i l * ent (mat_inverse A) l j) = (if i = j then 1 else 0)"
    if "i < 2" "j < 2" for i j
  proof -
    have "i = 0 \<or> i = 1" and "j = 0 \<or> j = 1"
      using that by auto
    then show ?thesis
      by (elim disjE; hypsubst; simp only: s00 s01 s10 s11; simp)
  qed
  then have "mk 2 2 (\<lambda>i j. \<Sum>l<2. ent A i l * ent (mat_inverse A) l j)
           = mk 2 2 (\<lambda>i j. if i = j then 1 else 0)"
    by (intro mk_cong)
  moreover have "ncols (mat_inverse A) = 2"
    by (simp add: mat_inverse_def dims)
  ultimately show ?thesis
    by (simp add: mat_mul_def eye_def dims)
qed

section \<open>Propagation\<close>

lemma spec_strategy1_0:
  assumes "has_shape n h R"
  shows "spec_strategy1 A R 0 = R"
  using assms has_shape_mk_ent[OF assms] by (simp add: spec_strategy1_def has_shape_def)

lemma spec_strategy1_Suc:
  assumes "has_shape n n A" "has_shape n h R"
  shows "mat_add (spec_strategy1 A R j) (mat_mul (mat_pow A (Suc j)) R) = spec_strategy1 A R (Suc j)"
proof -
  show ?thesis
    unfolding mat_add_def spec_strategy1_def nrows_mk ncols_mk
    by (rule mk_cong) (simp del: mat_pow.simps)
qed

lemma order1_loop_sum:
  assumes A: "has_shape n n A" and R: "has_shape n h R"
  shows "order1_loop k A (mat_mul (mat_pow A j) R) (spec_strategy1 A R j)
         = Inr (spec_strategy1 A R (j + k))"
proof (induction k arbitrary: j)
  case 0
  show ?case by simp
next
  case (Suc k)
  have dims: "nrows A = n" "ncols A = n" "nrows R = n" "ncols R = h"
    using A R by (simp_all add: has_shape_def)
  have step: "spmm A (mat_mul (mat_pow A j) R) = Inr (mat_mul (mat_pow A (Suc j)) R)"
    using dims by (simp add: spmm_def mm_def mat_mul_assoc)
  have add: "tadd (spec_strategy1 A R j) (mat_mul (mat_pow A (Suc j)) R)
             = Inr (spec_strategy1 A R (Suc j))"
    using dims spec_strategy1_Suc[OF A R, of j]
    by (simp add: tadd_same spec_strategy1_def del: mat_pow.simps)
  show ?case
    using Suc.IH[of "Suc j"] by (simp add: step add del: mat_pow.simps)
qed

text \<open>
  Claim C2. For an adjacency matrix \<open>adj\<close> of shape \<open>(n, n)\<close>, a residual \<open>res\<close> of shape
  \<open>(n, h)\<close> and \<open>orders = K \<ge> 0\<close>, \<^verbatim>\<open>order_func1\<close> returns \<open>res + \<Sum>\<^bsub>k=1..K\<^esub> adj\<^sup>k res\<close>,
  with the powers of \<open>adj\<close> taken as matrix powers; for \<open>K = 0\<close> it returns \<open>res\<close>.
\<close>

theorem order_func1_sum:
  assumes "has_shape n n adj" and "has_shape n h res" and "orders m = int K"
  shows "order_func1 m x res adj = Inr (spec_strategy1 adj res K)
         \<and> (K = 0 \<longrightarrow> order_func1 m x res adj = Inr res)"
proof -
  have "order1_loop K adj (mat_mul (mat_pow adj 0) res) (spec_strategy1 adj res 0)
        = Inr (spec_strategy1 adj res (0 + K))"
    by (rule order1_loop_sum[OF assms(1,2)])
  moreover have "mat_mul (mat_pow adj 0) res = res"
    using assms(1,2) by (simp add: mat_mul_eye has_shape_def)
  ultimately have "order_func1 m x res adj = Inr (spec_strategy1 adj res K)"
    using assms(3) by (simp add: order_func1_def spec_strategy1_0[OF assms(2)])
  then show ?thesis
    using spec_strategy1_0[OF assms(2)] by auto
qed

theorem order_func1_sum_witness:
  "has_shape 2 2 demo_adj \<and> has_shape 2 2 demo_x \<and> orders demo_model = int 2
   \<and> order_func1 demo_model demo_x demo_x demo_adj = Inr (spec_strategy1 demo_adj demo_x 2)
   \<and> spec_strategy1 demo_adj demo_x 2 = Tensor 2 2 [[3, 5/2], [3, 6]]"
proof -
  have a: "has_shape 2 2 demo_adj" by code_simp
  have b: "has_shape 2 2 demo_x" by code_simp
  have c: "orders demo_model = int 2" by (simp add: demo_model_def)
  have d: "spec_strategy1 demo_adj demo_x 2 = Tensor 2 2 [[3, 5/2], [3, 6]]" by code_simp
  from order_func1_sum[OF a b c, of demo_x] show ?thesis
    using a b c d by simp
qed

lemma returns_shape_Inr [simp]: "returns_shape n k (Inr T) = has_shape n k T"
  by (simp add: returns_shape_def)

lemma returns_shape_Inl [simp]: "\<not> returns_shape n k (Inl e)"
  by (simp add: returns_shape_def)

lemma returns_shapeE:
  assumes "returns_shape n k r"
  obtains T where "r = Inr T" "has_shape n k T"
  using assms by (cases r) (auto simp: returns_shape_def)

lemma nrows_relu [simp]: "nrows (relu A) = nrows A"
  by (simp add: relu_def)

lemma ncols_relu [simp]: "ncols (relu A) = ncols A"
  by (simp add: relu_def)

lemma nrows_smul [simp]: "nrows (smul c A) = nrows A"
  by (simp add: smul_def)

lemma ncols_smul [simp]: "ncols (smul c A) = ncols A"
  by (simp add: smul_def)

lemma nrows_transpose_t [simp]: "nrows (transpose_t A) = ncols A"
  by (simp add: transpose_t_def)

lemma ncols_transpose_t [simp]: "ncols (transpose_t A) = nrows A"
  by (simp add: transpose_t_def)

lemma wf_relu [simp]: "wf_tensor (relu A)"
  by (simp add: relu_def)

lemma wf_smul [simp]: "wf_tensor (smul c A)"
  by (simp add: smul_def)

lemma wf_transpose_t [simp]: "wf_tensor (transpose_t A)"
  by (simp add: transpose_t_def)

lemma has_shape_mat_mul [simp]: "has_shape n k (mat_mul A B) \<longleftrightarrow> n = nrows A \<and> k = ncols B"
  by (auto simp: mat_mul_def)

lemma mm_shape:
  "has_shape n k A \<Longrightarrow> has_shape k l B \<Longrightarrow> mm A B = Inr (mat_mul A B)"
  by (simp add: mm_def has_shape_def)

lemma broadcast2_col1:
  assumes "has_shape n h A" "has_shape 1 1 B"
  shows "returns_shape n h (broadcast2 f A B)"
  using assms by (auto simp: broadcast2_def bdim_def has_shape_def)

lemma broadcast2_unsq:
  assumes "has_shape n 1 A" "has_shape n h B"
  shows "returns_shape n h (broadcast2 f A B)"
  using assms by (auto simp: broadcast2_def bdim_def has_shape_def)

lemma broadcast2_eq_shape:
  assumes "has_shape n h A" "has_shape n h B"
  shows "returns_shape n h (broadcast2 f A B)"
  using assms by (auto simp: broadcast2_def bdim_def has_shape_def)

lemma index0_in:
  "i < nrows A \<Longrightarrow> index0 A i = Inr (map (ent A i) [0..<ncols A])"
  by (simp add: index0_def)

lemma has_shape_row_tensor [simp]: "has_shape n k (row_tensor v) \<longleftrightarrow> n = 1 \<and> k = length v"
  by (auto simp: row_tensor_def)

lemma has_shape_unsqueeze1 [simp]: "has_shape n k (unsqueeze1 v) \<longleftrightarrow> n = length v \<and> k = 1"
  by (auto simp: unsqueeze1_def)

lemma order2_loop_returns:
  assumes "has_shape n n adj" "has_shape K 1 w" "\<forall>i\<in>set is. i < K"
    and "has_shape n h tmp" "has_shape n h acc"
  shows "returns_shape n h (order2_loop w is adj tmp acc)"
  using assms(3-5)
proof (induction "is" arbitrary: tmp acc)
  case Nil
  then show ?case by simp
next
  case (Cons i "is")
  have i: "i < nrows w" and cw: "ncols w = 1"
    using Cons.prems(1) assms(2) by (auto simp: has_shape_def)
  let ?tmp = "mat_mul adj tmp"
  have s: "spmm adj tmp = Inr ?tmp" and st: "has_shape n h ?tmp"
    using assms(1) Cons.prems(2) by (auto simp: spmm_def mm_def has_shape_def)
  have "returns_shape n h (tmul ?tmp (row_tensor (map (ent w i) [0..<ncols w])))"
    unfolding tmul_def using st cw by (intro broadcast2_col1) simp_all
  then obtain t where t: "tmul ?tmp (row_tensor (map (ent w i) [0..<ncols w])) = Inr t"
      and ts: "has_shape n h t"
    by (rule returns_shapeE)
  have "returns_shape n h (tadd acc t)"
    unfolding tadd_def using Cons.prems(3) ts by (rule broadcast2_eq_shape)
  then obtain acc' where a: "tadd acc t = Inr acc'" and as: "has_shape n h acc'"
    by (rule returns_shapeE)
  have "returns_shape n h (order2_loop w is adj ?tmp acc')"
    using Cons.prems(1) st as by (intro Cons.IH) simp_all
  then show ?case
    by (simp add: s index0_in[OF i] t a)
qed

lemma order3_loop_returns:
  assumes "has_shape n n adj" "has_shape K n para" "\<forall>i\<in>set is. i < K"
    and "has_shape n h tmp" "has_shape n h acc"
  shows "returns_shape n h (order3_loop para is adj tmp acc)"
  using assms(3-5)
proof (induction "is" arbitrary: tmp acc)
  case Nil
  then show ?case by simp
next
  case (Cons i "is")
  have i: "i < nrows para" and cw: "ncols para = n"
    using Cons.prems(1) assms(2) by (auto simp: has_shape_def)
  let ?tmp = "mat_mul adj tmp"
  have s: "spmm adj tmp = Inr ?tmp" and st: "has_shape n h ?tmp"
    using assms(1) Cons.prems(2) by (auto simp: spmm_def mm_def has_shape_def)
  have "returns_shape n h (tmul (unsqueeze1 (map (ent para i) [0..<ncols para])) ?tmp)"
    unfolding tmul_def using st cw by (intro broadcast2_unsq) simp_all
  then obtain t where t: "tmul (unsqueeze1 (map (ent para i) [0..<ncols para])) ?tmp = Inr t"
      and ts: "has_shape n h t"
    by (rule returns_shapeE)
  have "returns_shape n h (tadd acc t)"
    unfolding tadd_def using Cons.prems(3) ts by (rule broadcast2_eq_shape)
  then obtain acc' where a: "tadd acc t = Inr acc'" and as: "has_shape n h acc'"
    by (rule returns_shapeE)
  have "returns_shape n h (order3_loop para is adj ?tmp acc')"
    using Cons.prems(1) st as by (intro Cons.IH) simp_all
  then show ?case
    by (simp add: s index0_in[OF i] t a)
qed


lemma order_func1_spec:
  assumes "has_shape n n adj" and "has_shape n h res"
  shows "order_func1 m x res adj = Inr (spec_strategy1 adj res (nat (orders m)))"
proof -
  have "order1_loop (nat (orders m)) adj (mat_mul (mat_pow adj 0) res) (spec_strategy1 adj res 0)
        = Inr (spec_strategy1 adj res (0 + nat (orders m)))"
    by (rule order1_loop_sum[OF assms])
  moreover have "mat_mul (mat_pow adj 0) res = res"
    using assms by (simp add: mat_mul_eye has_shape_def)
  ultimately show ?thesis
    by (simp add: order_func1_def spec_strategy1_0[OF assms(2)])
qed

lemma has_shape_spec_strategy1:
  "has_shape n h res \<Longrightarrow> has_shape n h (spec_strategy1 adj res K)"
  by (simp add: spec_strategy1_def has_shape_def)

lemma order_func1_returns:
  assumes "has_shape n n adj" and "has_shape n h res"
  shows "returns_shape n h (order_func1 m x res adj)"
  by (simp add: order_func1_spec[OF assms] has_shape_spec_strategy1[OF assms(2)])

lemma order_func2_returns:
  assumes "has_shape n n adj" and "has_shape n h res"
    and "has_shape (nat (orders m)) 1 (orders_weight m)" and "1 \<le> orders m"
  shows "returns_shape n h (order_func2 m x res adj)"
proof -
  let ?w = "orders_weight m"
  let ?tmp = "mat_mul adj res"
  have z: "0 < nrows ?w" and cw: "ncols ?w = 1"
    using assms(3,4) by (auto simp: has_shape_def)
  have s: "spmm adj res = Inr ?tmp" and st: "has_shape n h ?tmp"
    using assms(1,2) by (auto simp: spmm_def mm_def has_shape_def)
  have "returns_shape n h (tmul ?tmp (row_tensor (map (ent ?w 0) [0..<ncols ?w])))"
    unfolding tmul_def using st cw by (intro broadcast2_col1) simp_all
  then obtain t where t: "tmul ?tmp (row_tensor (map (ent ?w 0) [0..<ncols ?w])) = Inr t"
      and ts: "has_shape n h t"
    by (rule returns_shapeE)
  have "returns_shape n h (order2_loop ?w [1..<nat (orders m)] adj ?tmp t)"
    using assms(1,3) _ st ts by (rule order2_loop_returns) simp
  then show ?thesis
    by (simp add: order_func2_def s index0_in[OF z] t)
qed

lemma has_shape_transpose_t [simp]:
  "has_shape n k (transpose_t A) \<longleftrightarrow> n = ncols A \<and> k = nrows A"
  by (auto simp: transpose_t_def)

lemma has_shape_relu [simp]: "has_shape n k (relu A) \<longleftrightarrow> n = nrows A \<and> k = ncols A"
  by (auto simp: relu_def)

lemma order_func3_returns:
  assumes "has_shape n n adj" and "has_shape n h res" and "has_shape n c x"
    and "has_shape c (nat (orders m)) (orders_weight_matrix m)"
    and "has_shape (nat (orders m)) (nat (orders m)) (orders_weight_matrix2 m)"
    and "1 \<le> orders m"
  shows "returns_shape n h (order_func3 m x res adj)"
proof -
  let ?K = "nat (orders m)"
  let ?xw = "mat_mul x (orders_weight_matrix m)"
  let ?p = "transpose_t (mat_mul (relu ?xw) (orders_weight_matrix2 m))"
  let ?tmp = "mat_mul adj res"
  have m1: "mm x (orders_weight_matrix m) = Inr ?xw"
    using assms(3,4) by (rule mm_shape)
  have m2: "mm (relu ?xw) (orders_weight_matrix2 m) = Inr (mat_mul (relu ?xw) (orders_weight_matrix2 m))"
    using assms(4,5) by (simp add: mm_def has_shape_def)
  have p: "has_shape ?K n ?p"
    using assms(3,5) by (simp add: has_shape_def)
  then have z: "0 < nrows ?p" and cp: "ncols ?p = n"
    using assms(6) by (auto simp: has_shape_def)
  have s: "spmm adj res = Inr ?tmp" and st: "has_shape n h ?tmp"
    using assms(1,2) by (auto simp: spmm_def mm_def has_shape_def)
  have "returns_shape n h (tmul (unsqueeze1 (map (ent ?p 0) [0..<ncols ?p])) ?tmp)"
    unfolding tmul_def using st cp by (intro broadcast2_unsq) simp_all
  then obtain t where t: "tmul (unsqueeze1 (map (ent ?p 0) [0..<ncols ?p])) ?tmp = Inr t"
      and ts: "has_shape n h t"
    by (rule returns_shapeE)
  have "returns_shape n h (order3_loop ?p [1..<?K] adj ?tmp t)"
    using assms(1) p _ st ts by (rule order3_loop_returns) simp
  then show ?thesis
    using t by (simp add: order_func3_def m1 m2 s index0_in[OF z] Let_def)
qed

lemma order_func2_orders0:
  assumes "has_shape n n adj" and "has_shape n h res" and "nrows (orders_weight m) = 0"
  shows "order_func2 m x res adj = Inl IndexError"
proof -
  have s: "spmm adj res = Inr (mat_mul adj res)"
    using assms(1,2) by (auto simp: spmm_def mm_def has_shape_def)
  show ?thesis
    using assms(3) by (simp add: order_func2_def s index0_def)
qed

lemma order_func3_orders0:
  assumes "has_shape n n adj" and "has_shape n h res" and "has_shape n c x"
    and "has_shape c 0 (orders_weight_matrix m)"
    and "has_shape 0 0 (orders_weight_matrix2 m)"
  shows "order_func3 m x res adj = Inl IndexError"
proof -
  let ?xw = "mat_mul x (orders_weight_matrix m)"
  have m1: "mm x (orders_weight_matrix m) = Inr ?xw"
    using assms(3,4) by (rule mm_shape)
  have m2: "mm (relu ?xw) (orders_weight_matrix2 m) = Inr (mat_mul (relu ?xw) (orders_weight_matrix2 m))"
    using assms(4,5) by (simp add: mm_def has_shape_def)
  have s: "spmm adj res = Inr (mat_mul adj res)"
    using assms(1,2) by (auto simp: spmm_def mm_def has_shape_def)
  have "nrows (transpose_t (mat_mul (relu ?xw) (orders_weight_matrix2 m))) = 0"
    using assms(5) by (simp add: transpose_t_def has_shape_def)
  then show ?thesis
    by (simp add: order_func3_def m1 m2 s index0_def Let_def)
qed

lemma order_funcs_fail_orders0:
  assumes "nrows (orders_weight m) = 0" "ncols (orders_weight_matrix2 m) = 0"
  shows "isl (order_func2 m x res adj) \<and> isl (order_func3 m x res adj)"
proof -
  have "isl (order_func2 m x res adj)"
    using assms(1)
    by (cases "spmm adj res") (simp_all add: order_func2_def index0_def)
  moreover have "isl (order_func3 m x res adj)"
  proof (cases "mm x (orders_weight_matrix m)")
    case (Inr xw)
    show ?thesis
    proof (cases "mm (relu xw) (orders_weight_matrix2 m)")
      case a: (Inr p)
      have "ncols p = 0"
        using a assms(2) by (auto simp: mm_def split: if_splits)
      then have "nrows (transpose_t p) = 0"
        by (simp add: transpose_t_def)
      then show ?thesis
        by (cases "spmm adj res") (simp_all add: order_func3_def Inr a index0_def Let_def)
    qed (simp add: order_func3_def Inr)
  qed (simp add: order_func3_def)
  ultimately show ?thesis ..
qed

text \<open>
  Claim C10. On a model built with \<open>orders = 0\<close>, \<^verbatim>\<open>order_func2\<close> and \<^verbatim>\<open>order_func3\<close> fail
  with an index error (element 0 of a tensor with no rows is read before the loop), while
  \<^verbatim>\<open>order_func1\<close> returns its residual unchanged; for \<open>orders \<ge> 1\<close> each of the three
  returns a matrix of the shape of the residual. The model has the shapes \<^verbatim>\<open>__init__\<close>
  builds, the adjacency is \<open>(n, n)\<close>, the residual \<open>(n, h)\<close> and the embedding \<open>(n, nclass)\<close>.
\<close>

theorem orders_precondition:
  assumes "constructed n m" and "has_shape n n adj" and "has_shape n h res"
    and "has_shape n (nclass m) x"
  shows "(orders m = 0 \<longrightarrow>
            order_func1 m x res adj = Inr res
          \<and> order_func2 m x res adj = Inl IndexError
          \<and> order_func3 m x res adj = Inl IndexError)
       \<and> (1 \<le> orders m \<longrightarrow>
            returns_shape n h (order_func1 m x res adj)
          \<and> returns_shape n h (order_func2 m x res adj)
          \<and> returns_shape n h (order_func3 m x res adj))"
proof (intro conjI impI)
  assume z: "orders m = 0"
  show "order_func1 m x res adj = Inr res"
    using z by (simp add: order_func1_def)
  show "order_func2 m x res adj = Inl IndexError"
    using assms z by (intro order_func2_orders0) (auto simp: constructed_def has_shape_def)
  show "order_func3 m x res adj = Inl IndexError"
    using assms z by (intro order_func3_orders0[where c = "nclass m"]) (auto simp: constructed_def)
next
  assume p: "1 \<le> orders m"
  show "returns_shape n h (order_func1 m x res adj)"
    using assms(2,3) by (rule order_func1_returns)
  show "returns_shape n h (order_func2 m x res adj)"
    using assms p by (intro order_func2_returns) (auto simp: constructed_def)
  show "returns_shape n h (order_func3 m x res adj)"
    using assms p by (intro order_func3_returns[where c = "nclass m"]) (auto simp: constructed_def)
qed

theorem orders_precondition_witness:
  "constructed 2 demo_model0 \<and> constructed 2 demo_model
   \<and> has_shape 2 2 demo_adj \<and> has_shape 2 2 demo_h0
   \<and> has_shape 2 (nclass demo_model0) demo_x \<and> has_shape 2 (nclass demo_model) demo_x
   \<and> orders demo_model0 = 0 \<and> 1 \<le> orders demo_model
   \<and> order_func1 demo_model0 demo_x demo_h0 demo_adj = Inr demo_h0
   \<and> order_func2 demo_model0 demo_x demo_h0 demo_adj = Inl IndexError
   \<and> order_func3 demo_model0 demo_x demo_h0 demo_adj = Inl IndexError
   \<and> returns_shape 2 2 (order_func1 demo_model demo_x demo_h0 demo_adj)
   \<and> returns_shape 2 2 (order_func2 demo_model demo_x demo_h0 demo_adj)
   \<and> returns_shape 2 2 (order_func3 demo_model demo_x demo_h0 demo_adj)"
proof -
  have c0: "constructed 2 demo_model0" by code_simp
  have c2: "constructed 2 demo_model" by code_simp
  have a: "has_shape 2 2 demo_adj" by code_simp
  have r: "has_shape 2 2 demo_h0" by code_simp
  have x0: "has_shape 2 (nclass demo_model0) demo_x" by code_simp
  have x2: "has_shape 2 (nclass demo_model) demo_x" by code_simp
  have o0: "orders demo_model0 = 0" by (simp add: demo_model0_def)
  have o2: "1 \<le> orders demo_model" by (simp add: demo_model_def)
  from orders_precondition[OF c0 a r x0] orders_precondition[OF c2 a r x2]
  show ?thesis
    using c0 c2 a r x0 x2 o0 o2 by simp
qed

section \<open>Row normalisation\<close>

lemma nonneg_ent:
  assumes "wf_tensor T" "nonneg T" "i < nrows T" "j < ncols T"
  shows "0 \<le> ent T i j"
  using assms by (simp add: wf_tensor_def nonneg_def ent_def list_all_length)

lemma nonneg_mk: "(\<And>i j. i < n \<Longrightarrow> j < k \<Longrightarrow> 0 \<le> f i j) \<Longrightarrow> nonneg (mk n k f)"
  by (simp add: nonneg_def mk_def list_all_length)

lemma nrows_diags [simp]: "nrows (diags v) = length v"
  by (simp add: diags_def)

lemma ncols_diags [simp]: "ncols (diags v) = length v"
  by (simp add: diags_def)

lemma ent_diags_mul:
  assumes "i < length v" "length v = nrows mx" "j < ncols mx"
  shows "ent (mat_mul (diags v) mx) i j = v ! i * ent mx i j"
proof -
  have "ent (mat_mul (diags v) mx) i j = (\<Sum>l<length v. ent (diags v) i l * ent mx l j)"
    using assms by (simp add: ent_mat_mul)
  also have "\<dots> = (\<Sum>l<length v. if i = l then v ! i * ent mx l j else 0)"
    using assms(1) by (intro sum.cong) (auto simp: diags_def)
  also have "\<dots> = v ! i * ent mx i j"
    using assms(1) by simp
  finally show ?thesis .
qed

lemma normalize_mx_eq:
  "normalize_mx mx = Inr (mk (nrows mx) (ncols mx) (\<lambda>i j. r_inv_of mx i * ent mx i j))"
proof -
  let ?v = "map zero_where_isinf (map np_power_m1 (map (row_sum mx) [0..<nrows mx]))"
  have v: "zero_where_isinf (np_power_m1 (row_sum mx i)) = r_inv_of mx i" for i
    by (simp add: zero_where_isinf_def np_power_m1_def r_inv_of_def)
  have "mat_mul (diags ?v) mx = mk (nrows mx) (ncols mx) (\<lambda>i j. ent (mat_mul (diags ?v) mx) i j)"
    using mk_ent[of "mat_mul (diags ?v) mx"] by simp
  also have "\<dots> = mk (nrows mx) (ncols mx) (\<lambda>i j. r_inv_of mx i * ent mx i j)"
    by (rule mk_cong) (simp add: ent_diags_mul v)
  finally show ?thesis
    by (simp add: normalize_mx_def mm_def Let_def)
qed

lemma row_sum_normalized:
  assumes "i < nrows mx"
  shows "row_sum (mk (nrows mx) (ncols mx) (\<lambda>i j. r_inv_of mx i * ent mx i j)) i
         = (if row_sum mx i = 0 then 0 else 1)"
proof -
  have "row_sum (mk (nrows mx) (ncols mx) (\<lambda>i j. r_inv_of mx i * ent mx i j)) i
        = (\<Sum>j<ncols mx. r_inv_of mx i * ent mx i j)"
    using assms by (simp add: row_sum_def)
  also have "\<dots> = r_inv_of mx i * row_sum mx i"
    by (simp add: row_sum_def sum_distrib_left)
  also have "\<dots> = (if row_sum mx i = 0 then 0 else 1)"
    by (simp add: r_inv_of_def)
  finally show ?thesis .
qed

lemma row_sum_0_zero_row:
  assumes "wf_tensor mx" "nonneg mx" "i < nrows mx" "row_sum mx i = 0"
  shows "row_of mx i = replicate (ncols mx) 0"
proof -
  have "\<forall>j\<in>{..<ncols mx}. ent mx i j = 0"
    using assms nonneg_ent[OF assms(1,2,3)]
    by (subst sum_nonneg_eq_0_iff[symmetric]) (auto simp: row_sum_def)
  then show ?thesis
    by (intro nth_equalityI) (simp_all add: row_of_def)
qed

lemma normalize_mx_rows:
  assumes "wf_tensor mx"
  shows "row_normalized mx (mk (nrows mx) (ncols mx) (\<lambda>i j. r_inv_of mx i * ent mx i j))"
  unfolding row_normalized_def
proof (intro conjI ballI)
  fix i assume "i \<in> {..<nrows mx}"
  then have i: "i < nrows mx" by simp
  show "row_of (mk (nrows mx) (ncols mx) (\<lambda>i j. r_inv_of mx i * ent mx i j)) i =
        (if row_sum mx i = 0 then replicate (ncols mx) 0
         else map (\<lambda>v. v / row_sum mx i) (row_of mx i))"
    using i by (intro nth_equalityI) (simp_all add: row_of_def r_inv_of_def)
qed simp

lemma normalize_mx_sums:
  assumes "wf_tensor mx" "nonneg mx"
  shows "rows_sum_to_1_or_0 mx (mk (nrows mx) (ncols mx) (\<lambda>i j. r_inv_of mx i * ent mx i j))"
  unfolding rows_sum_to_1_or_0_def
  using row_sum_0_zero_row[OF assms]
  by (auto simp: row_sum_normalized split: if_splits)

lemma self_loops_row_sum:
  assumes "has_shape n n adj" "nonneg adj" "i < n"
  shows "1 \<le> row_sum (mat_add adj (eye n)) i"
proof -
  have d: "nrows adj = n" "ncols adj = n" "wf_tensor adj"
    using assms(1) by (simp_all add: has_shape_def)
  have "row_sum (mat_add adj (eye n)) i = (\<Sum>j<n. ent adj i j + (if i = j then 1 else 0))"
    using assms(3) d by (simp add: row_sum_def mat_add_def eye_def)
  also have "\<dots> = row_sum adj i + 1"
    using assms(3) d by (simp add: sum.distrib row_sum_def)
  finally have "row_sum (mat_add adj (eye n)) i = row_sum adj i + 1" .
  moreover have "0 \<le> row_sum adj i"
    unfolding row_sum_def using nonneg_ent[OF d(3) assms(2)] assms(3) d
    by (intro sum_nonneg) simp
  ultimately show ?thesis by simp
qed

lemma nonneg_self_loops:
  assumes "has_shape n n adj" "nonneg adj"
  shows "nonneg (mat_add adj (eye n))"
proof -
  have d: "nrows adj = n" "ncols adj = n" "wf_tensor adj"
    using assms(1) by (simp_all add: has_shape_def)
  show ?thesis
    unfolding mat_add_def d
    using nonneg_ent[OF d(3) assms(2)] d by (intro nonneg_mk) (simp add: eye_def)
qed

lemma normalize_adj_eq:
  assumes "has_shape n n adj"
  shows "normalize_adj adj = normalize_mx (mat_add adj (eye n))"
  using assms by (simp add: normalize_adj_def sp_add_def mat_add_def has_shape_def)

text \<open>
  Claim C6. \<^verbatim>\<open>normalize\<close> raises nothing and returns, for every matrix, the matrix with each
  row divided by its sum, and with the zero row wherever the sum of the row is zero (there
  \<open>0\<^sup>-\<^sup>1\<close> is \<^verbatim>\<open>inf\<close>, which line 263 replaces by 0), also for a row such as \<open>[1, -1]\<close> that
  is not all zeros. For a matrix with non-negative entries every row of the result then
  sums to 1 or to 0, and to 0 only where the row normalised was all zeros. This holds of
  the normalised feature matrix and of the normalised adjacency with self-loops, where no
  row is all zeros and each row sums to 1.
\<close>

theorem normalize_rows:
  assumes "has_shape n k features" and "has_shape n n adj"
  shows "(\<exists>T. normalize_mx features = Inr T \<and> row_normalized features T
              \<and> (nonneg features \<longrightarrow> rows_sum_to_1_or_0 features T))
       \<and> (\<exists>T. normalize_adj adj = Inr T \<and> row_normalized (mat_add adj (eye n)) T
              \<and> (nonneg adj \<longrightarrow>
                    rows_sum_to_1_or_0 (mat_add adj (eye n)) T \<and> (\<forall>i<n. row_sum T i = 1)))"
proof
  have "wf_tensor features"
    using assms(1) by (simp add: has_shape_def)
  then show "\<exists>T. normalize_mx features = Inr T \<and> row_normalized features T
                 \<and> (nonneg features \<longrightarrow> rows_sum_to_1_or_0 features T)"
    using normalize_mx_rows normalize_mx_sums by (simp add: normalize_mx_eq)
next
  let ?a = "mat_add adj (eye n)"
  let ?T = "mk (nrows ?a) (ncols ?a) (\<lambda>i j. r_inv_of ?a i * ent ?a i j)"
  have d: "nrows ?a = n" "wf_tensor ?a"
    using assms(2) by (simp_all add: has_shape_def mat_add_def)
  have sums: "rows_sum_to_1_or_0 ?a ?T \<and> (\<forall>i<n. row_sum ?T i = 1)" if nn: "nonneg adj"
  proof
    have "nonneg ?a"
      using assms(2) nn by (rule nonneg_self_loops)
    then show "rows_sum_to_1_or_0 ?a ?T"
      by (rule normalize_mx_sums[OF d(2)])
    have "row_sum ?T i = 1" if "i < n" for i
      using self_loops_row_sum[OF assms(2) nn that] row_sum_normalized[of i ?a] that d by auto
    then show "\<forall>i<n. row_sum ?T i = 1"
      by simp
  qed
  show "\<exists>T. normalize_adj adj = Inr T \<and> row_normalized ?a T
                 \<and> (nonneg adj \<longrightarrow> rows_sum_to_1_or_0 ?a T \<and> (\<forall>i<n. row_sum T i = 1))"
    using normalize_mx_rows[OF d(2)] sums
    by (simp add: normalize_adj_eq[OF assms(2)] normalize_mx_eq)
qed

theorem normalize_rows_witness:
  "has_shape 2 2 demo_raw_features \<and> nonneg demo_raw_features
   \<and> has_shape 2 2 demo_signed_features
   \<and> has_shape 2 2 demo_raw_adj \<and> nonneg demo_raw_adj
   \<and> normalize_mx demo_raw_features = Inr (Tensor 2 2 [[1/4, 3/4], [0, 0]])
   \<and> normalize_mx demo_signed_features = Inr (Tensor 2 2 [[0, 0], [1/4, 3/4]])
   \<and> normalize_adj demo_raw_adj = Inr demo_adj
   \<and> row_normalized demo_raw_features (Tensor 2 2 [[1/4, 3/4], [0, 0]])
   \<and> rows_sum_to_1_or_0 demo_raw_features (Tensor 2 2 [[1/4, 3/4], [0, 0]])
   \<and> row_normalized demo_signed_features (Tensor 2 2 [[0, 0], [1/4, 3/4]])
   \<and> row_normalized (mat_add demo_raw_adj (eye 2)) demo_adj
   \<and> rows_sum_to_1_or_0 (mat_add demo_raw_adj (eye 2)) demo_adj
   \<and> row_sum demo_adj 0 = 1 \<and> row_sum demo_adj 1 = 1"
proof -
  have a: "has_shape 2 2 demo_raw_features" by code_simp
  have b: "nonneg demo_raw_features" by code_simp
  have a': "has_shape 2 2 demo_signed_features" by code_simp
  have c: "has_shape 2 2 demo_raw_adj" by code_simp
  have d: "nonneg demo_raw_adj" by code_simp
  have e: "normalize_mx demo_raw_features = Inr (Tensor 2 2 [[1/4, 3/4], [0, 0]])" by code_simp
  have e': "normalize_mx demo_signed_features = Inr (Tensor 2 2 [[0, 0], [1/4, 3/4]])"
    by code_simp
  have f: "normalize_adj demo_raw_adj = Inr demo_adj" by code_simp
  from normalize_rows[OF a c] normalize_rows[OF a' c] show ?thesis
    using a b a' c d e e' f by simp
qed

section \<open>The training loop: early stopping and the snapshot\<close>

lemma length_write_dict [simp]: "length (write_dict h sd vs) = length h"
  by (induction h sd vs rule: write_dict.induct) simp_all

lemma write_dict_frame:
  "a \<notin> addresses sd \<Longrightarrow> write_dict h sd vs ! a = h ! a"
  by (induction h sd vs rule: write_dict.induct) (auto simp: addresses_def)

lemma read_dict_cong:
  "(\<And>a. a \<in> addresses sd \<Longrightarrow> h' ! a = h ! a) \<Longrightarrow> read_dict h' sd = read_dict h sd"
  by (force simp: read_dict_def addresses_def)


lemma names_deepcopy: "map fst (snd (deepcopy h sd)) = map fst sd"
  by (simp add: deepcopy_def)

lemma heap_deepcopy_old: "a < length h \<Longrightarrow> fst (deepcopy h sd) ! a = h ! a"
  by (simp add: deepcopy_def nth_append)



lemma train_loop_upt:
  "a < b \<Longrightarrow> train_loop r [a..<b] s =
     (case epoch_body r a s of
        Inl e \<Rightarrow> Inl e
      | Inr (Break s') \<Rightarrow> Inr s'
      | Inr (Next s') \<Rightarrow> train_loop r [Suc a..<b] s')"
  by (simp add: upt_conv_Cons)

lemma update_best_no_improvement:
  "mv \<le> best_metric s \<Longrightarrow> update_best r mv s = s\<lparr>patience := patience s + 1\<rparr>"
  by (simp add: update_best_def)

lemma update_best_improvement:
  "best_metric s < mv \<Longrightarrow>
   update_best r mv s =
     s\<lparr>heap := fst (deepcopy (heap s) (params r)), best_metric := mv,
       best_params := Some (snd (deepcopy (heap s) (params r))), patience := 0\<rparr>"
  by (simp add: update_best_def split: prod.splits)

lemma patience_update_best:
  "patience (update_best r mv s) = (if best_metric s < mv then 0 else patience s + 1)"
  by (simp add: update_best_def split: prod.splits)

lemma validate_next:
  "validate r e s = Next s' \<Longrightarrow> patience s' < early_stopping r"
  by (auto simp: validate_def Let_def split: sum.splits if_splits)

lemma never_improves_step:
  assumes "never_improves r best a (Suc n)"
  shows "never_improves r best (Suc a) n"
    and "\<exists>vs'. optimizer_step r a vs = Inr vs'"
    and "\<exists>mv. metric_val r a vs = Inr mv \<and> mv \<le> best"
  using assms by (auto simp: never_improves_def)

lemma stop_after:
  assumes "patience s + int n = early_stopping r" and "0 < n"
    and "never_improves r (best_metric s) a n" and "a + n \<le> b"
  shows "\<exists>s'. train_loop r [a..<b] s = Inr s' \<and> epochs_run s' = epochs_run s + n
              \<and> patience s' = early_stopping r \<and> best_metric s' = best_metric s
              \<and> best_params s' = best_params s"
  using assms
proof (induction n arbitrary: s a)
  case 0
  then show ?case by simp
next
  case (Suc n)
  obtain vs where vs: "optimizer_step r a (read_dict (heap s) (params r)) = Inr vs"
    using never_improves_step(2)[OF Suc.prems(3)] by blast
  define s1 where "s1 = s\<lparr>heap := write_dict (heap s) (params r) vs, epochs_run := Suc (epochs_run s)\<rparr>"
  have ts: "train_step r a s = Inr s1"
    by (simp add: train_step_def vs s1_def)
  obtain mv where mv: "metric_val r a (read_dict (heap s1) (params r)) = Inr mv"
      and le: "mv \<le> best_metric s"
    using never_improves_step(3)[OF Suc.prems(3)] by blast
  define s2 where "s2 = s1\<lparr>patience := patience s1 + 1\<rparr>"
  have ub: "update_best r mv s1 = s2"
    using le by (simp add: update_best_no_improvement s1_def s2_def)
  have ab: "a < b"
    using Suc.prems(4) by simp
  show ?case
  proof (cases "n = 0")
    case True
    then have "early_stopping r \<le> patience s2"
      using Suc.prems(1) by (simp add: s1_def s2_def)
    then have "validate r a s1 = Break s2"
      by (simp add: validate_def mv ub)
    then have "train_loop r [a..<b] s = Inr s2"
      using ab by (simp add: train_loop_upt epoch_body_def ts)
    then show ?thesis
      using True Suc.prems(1) by (simp add: s1_def s2_def)
  next
    case False
    then have "\<not> early_stopping r \<le> patience s2"
      using Suc.prems(1) by (simp add: s1_def s2_def)
    then have "validate r a s1 = Next s2"
      by (simp add: validate_def mv ub)
    then have tl: "train_loop r [a..<b] s = train_loop r [Suc a..<b] s2"
      using ab by (simp add: train_loop_upt epoch_body_def ts)
    have "\<exists>s'. train_loop r [Suc a..<b] s2 = Inr s' \<and> epochs_run s' = epochs_run s2 + n
              \<and> patience s' = early_stopping r \<and> best_metric s' = best_metric s2
              \<and> best_params s' = best_params s2"
    proof (rule Suc.IH)
      show "patience s2 + int n = early_stopping r"
        using Suc.prems(1) by (simp add: s1_def s2_def)
      show "0 < n" using False by simp
      show "never_improves r (best_metric s2) (Suc a) n"
        using never_improves_step(1)[OF Suc.prems(3)] by (simp add: s1_def s2_def)
      show "Suc a + n \<le> b" using Suc.prems(4) by simp
    qed
    then show ?thesis
      by (simp add: tl s1_def s2_def)
  qed
qed

text \<open>
  Claim C7. Let the loop be about to run epoch \<open>a\<close> in any state, let the validation metric
  at \<open>a\<close> strictly exceed the best so far, and let it not exceed that value in the
  \<open>early_stopping\<close> epochs after \<open>a\<close>, all within the epoch budget. Then the loop halts
  after exactly \<open>early_stopping\<close> further evaluations. The counter is 0 after a strict
  improvement and one more after any other evaluation, and the loop goes on to a next epoch
  only with the counter below the limit. The limit is at least 1 here: with a limit of 0 or
  less the loop leaves after its first epoch whatever the metric does.
\<close>

theorem early_stopping_halts:
  fixes r :: "'v run"
  assumes limit: "1 \<le> early_stopping r" and L: "early_stopping r = int L"
    and step: "\<forall>vs. \<exists>vs'. optimizer_step r a vs = Inr vs'"
    and improves: "\<forall>vs. metric_val r a vs = Inr mv" "best_metric s < mv"
    and after: "never_improves r mv (Suc a) L"
    and budget: "a + L < b"
  shows "(\<exists>s'. train_loop r [a..<b] s = Inr s' \<and> epochs_run s' = epochs_run s + 1 + L
               \<and> best_metric s' = mv \<and> patience s' = early_stopping r)
       \<and> (\<forall>e t m'. metric_val r e (read_dict (heap t) (params r)) = Inr m' \<longrightarrow>
             patience (state_of (validate r e t))
               = (if best_metric t < m' then 0 else patience t + 1))
       \<and> (\<forall>e t t'. validate r e t = Next t' \<longrightarrow> patience t' < early_stopping r)"
proof (intro conjI allI impI)
  obtain vs where vs: "optimizer_step r a (read_dict (heap s) (params r)) = Inr vs"
    using step by blast
  define s1 where "s1 = s\<lparr>heap := write_dict (heap s) (params r) vs, epochs_run := Suc (epochs_run s)\<rparr>"
  define s2 where "s2 = update_best r mv s1"
  have ts: "train_step r a s = Inr s1"
    by (simp add: train_step_def vs s1_def)
  have s2: "patience s2 = 0" "best_metric s2 = mv" "epochs_run s2 = Suc (epochs_run s)"
    using improves(2) by (simp_all add: s2_def s1_def update_best_improvement)
  have "validate r a s1 = Next s2"
    using limit s2(1) improves(1) by (simp add: validate_def s2_def)
  then have tl: "train_loop r [a..<b] s = train_loop r [Suc a..<b] s2"
    using budget by (simp add: train_loop_upt epoch_body_def ts)
  have "\<exists>s'. train_loop r [Suc a..<b] s2 = Inr s' \<and> epochs_run s' = epochs_run s2 + L
              \<and> patience s' = early_stopping r \<and> best_metric s' = best_metric s2
              \<and> best_params s' = best_params s2"
    using limit L s2 after budget by (intro stop_after) simp_all
  then show "\<exists>s'. train_loop r [a..<b] s = Inr s' \<and> epochs_run s' = epochs_run s + 1 + L
               \<and> best_metric s' = mv \<and> patience s' = early_stopping r"
    using s2 by (auto simp: tl)
next
  fix e m' and t :: "'v train_state"
  assume "metric_val r e (read_dict (heap t) (params r)) = Inr m'"
  then show "patience (state_of (validate r e t))
             = (if best_metric t < m' then 0 else patience t + 1)"
    by (simp add: validate_def Let_def patience_update_best)
next
  fix e and t t' :: "'v train_state"
  assume "validate r e t = Next t'"
  then show "patience t' < early_stopping r"
    by (rule validate_next)
qed

text \<open>
  Claim C9. If the validation metric raises at an epoch whose training step went through,
  the loop ends there and returns: the result is a state, not an exception; it is the state
  after that epoch's optimizer step, with the best metric, the snapshot and the patience
  counter as they were, and none of the remaining epochs is run.
\<close>

theorem metric_error_ends_training:
  assumes "optimizer_step r epoch (read_dict (heap s) (params r)) = Inr vs"
    and "metric_val r epoch (read_dict (write_dict (heap s) (params r) vs) (params r)) = Inl e"
  shows "train_loop r (epoch # rest) s
         = Inr (s\<lparr>heap := write_dict (heap s) (params r) vs, epochs_run := Suc (epochs_run s)\<rparr>)"
  using assms by (simp add: epoch_body_def train_step_def validate_def)











theorem early_stopping_halts_witness:
  "1 \<le> early_stopping demo_run \<and> early_stopping demo_run = int 2
   \<and> (\<forall>vs. \<exists>vs'. optimizer_step demo_run 0 vs = Inr vs')
   \<and> (\<forall>vs. metric_val demo_run 0 vs = Inr (1/2))
   \<and> best_metric (initial_state [1::real]) < 1/2
   \<and> never_improves demo_run (1/2) (Suc 0) 2 \<and> 0 + 2 < (5::nat)
   \<and> train_loop demo_run [0..<5] (initial_state [1])
       = Inr \<lparr>heap = [4, 2], best_metric = 1/2, patience = 2,
              best_params = Some [(''fc1.weight'', 1)], epochs_run = 3\<rparr>
   \<and> metric_val demo_run 1 (read_dict (heap demo_state) (params demo_run)) = Inr (1/4)
   \<and> patience (state_of (validate demo_run 1 demo_state)) = 1
   \<and> validate demo_run 1 demo_state = Next (demo_state\<lparr>patience := 1\<rparr>)
   \<and> patience (demo_state\<lparr>patience := 1\<rparr>) < early_stopping demo_run"
proof -
  have h1: "1 \<le> early_stopping demo_run" by (simp add: demo_run_def)
  have h2: "early_stopping demo_run = int 2" by (simp add: demo_run_def)
  have h3: "\<forall>vs. \<exists>vs'. optimizer_step demo_run 0 vs = Inr vs'" by (simp add: demo_run_def)
  have h4: "\<forall>vs. metric_val demo_run 0 vs = Inr (1/2)" by (simp add: demo_run_def)
  have h5: "best_metric (initial_state [1::real]) < 1/2" by (simp add: initial_state_def)
  have h6: "never_improves demo_run (1/2) (Suc 0) 2"
    unfolding never_improves_def demo_run_def
    by (auto intro!: exI[of _ "1/4"])
  have h7: "0 + 2 < (5::nat)" by simp
  have run: "train_loop demo_run [0..<5] (initial_state [1])
       = Inr \<lparr>heap = [4, 2], best_metric = 1/2, patience = 2,
              best_params = Some [(''fc1.weight'', 1)], epochs_run = 3\<rparr>"
    by code_simp
  have m: "metric_val demo_run 1 (read_dict (heap demo_state) (params demo_run)) = Inr (1/4)"
    by (simp add: demo_run_def)
  have v: "validate demo_run 1 demo_state = Next (demo_state\<lparr>patience := 1\<rparr>)"
    by code_simp
  note t = early_stopping_halts[OF h1 h2 h3 h4 h5 h6 h7]
  from t have "metric_val demo_run 1 (read_dict (heap demo_state) (params demo_run)) = Inr (1/4)
      \<longrightarrow> patience (state_of (validate demo_run 1 demo_state))
           = (if best_metric demo_state < 1/4 then 0 else patience demo_state + 1)"
    by blast
  then have "patience (state_of (validate demo_run 1 demo_state)) = 1"
    using m by (simp add: demo_state_def)
  moreover from t have "patience (demo_state\<lparr>patience := 1\<rparr>) < early_stopping demo_run"
    using v by blast
  ultimately show ?thesis
    using h1 h2 h3 h4 h5 h6 h7 run m v by simp
qed

theorem metric_error_ends_training_witness:
  "optimizer_step demo_run 3 (read_dict (heap (initial_state [1])) (params demo_run)) = Inr [2]
   \<and> metric_val demo_run 3
        (read_dict (write_dict (heap (initial_state [1])) (params demo_run) [2]) (params demo_run))
       = Inl MetricError
   \<and> train_loop demo_run [3, 4] (initial_state [1])
       = Inr \<lparr>heap = [2], best_metric = 0, patience = 0, best_params = None, epochs_run = 1\<rparr>"
proof -
  have a: "optimizer_step demo_run 3 (read_dict (heap (initial_state [1])) (params demo_run)) = Inr [2]"
    by (simp add: demo_run_def initial_state_def read_dict_def)
  have b: "metric_val demo_run 3
        (read_dict (write_dict (heap (initial_state [1])) (params demo_run) [2]) (params demo_run))
       = Inl MetricError"
    by (simp add: demo_run_def)
  from metric_error_ends_training[OF a b, of "[4]"] show ?thesis
    using a b by (simp add: initial_state_def demo_run_def)
qed


text \<open>
  After the loop the snapshot is loaded back. With no snapshot taken (no metric above 0
  before the loop ended) the load raises; otherwise the live parameters get the contents of
  the snapshot, which stays as it was.
\<close>

lemma read_write_dict:
  assumes "distinct (map snd sd)" and "\<forall>a\<in>addresses sd. a < length h"
    and "length vs = length sd"
  shows "read_dict (write_dict h sd vs) sd = vs"
  using assms
proof (induction h sd vs rule: write_dict.induct)
  case (1 h name a sd v vs)
  have a: "a \<notin> addresses sd"
    using "1.prems"(1) by (simp add: addresses_def)
  have "read_dict (write_dict (h[a := v]) sd vs) sd = vs"
    using "1.prems" by (intro "1.IH") (simp_all add: addresses_def)
  moreover have "write_dict (h[a := v]) sd vs ! a = v"
    using a "1.prems"(2) by (simp add: write_dict_frame addresses_def)
  ultimately show ?case
    by (simp add: read_dict_def)
qed (simp_all add: read_dict_def)

lemma load_without_snapshot:
  "best_params s = None \<Longrightarrow> load_state_dict r s = Inl TypeError"
  by (simp add: load_state_dict_def)

lemma load_restores_snapshot:
  assumes "separate r s" and "best_params s = Some snapshot"
    and "distinct (map snd (params r))" and "length snapshot = length (params r)"
  shows "\<exists>s'. load_state_dict r s = Inr s'
              \<and> read_dict (heap s') (params r) = read_dict (heap s) snapshot
              \<and> read_dict (heap s') snapshot = read_dict (heap s) snapshot"
proof -
  let ?h = "write_dict (heap s) (params r) (read_dict (heap s) snapshot)"
  have live: "\<forall>a\<in>addresses (params r). a < length (heap s)"
    and apart: "addresses snapshot \<inter> addresses (params r) = {}"
    using assms(1,2) by (simp_all add: separate_def)
  have "read_dict ?h (params r) = read_dict (heap s) snapshot"
    using assms(3) live assms(4) by (intro read_write_dict) (simp_all add: read_dict_def)
  moreover have "read_dict ?h snapshot = read_dict (heap s) snapshot"
    using apart by (intro read_dict_cong write_dict_frame) auto
  ultimately show ?thesis
    by (simp add: load_state_dict_def assms(2))
qed

text \<open>
  In particular, when the validation metric raises in the first epoch, the loop ends
  without a snapshot and the load after it raises.
\<close>

lemma train_metric_error_first_epoch:
  assumes "0 < epochs r"
    and "optimizer_step r 0 (read_dict h (params r)) = Inr vs"
    and "metric_val r 0 (read_dict (write_dict h (params r) vs) (params r)) = Inl e"
  shows "train r h = Inl TypeError"
proof -
  have "[0..<nat (epochs r)] = 0 # [1..<nat (epochs r)]"
    using assms(1) by (simp add: upt_conv_Cons)
  then have "train_loop r [0..<nat (epochs r)] (initial_state h)
      = Inr ((initial_state h)\<lparr>heap := write_dict h (params r) vs, epochs_run := Suc 0\<rparr>)"
    using assms(2,3)
    by (simp add: epoch_body_def train_step_def validate_def initial_state_def)
  then show ?thesis
    by (simp add: train_def load_state_dict_def initial_state_def)
qed

section \<open>The normalisation step\<close>

lemma wf_mat_add [simp]: "wf_tensor (mat_add A B)"
  by (simp add: mat_add_def)

lemma wf_mat_sub [simp]: "wf_tensor (mat_sub A B)"
  by (simp add: mat_sub_def)

lemma nrows_mat_inverse [simp]: "nrows (mat_inverse A) = nrows A"
  by (simp add: mat_inverse_def)

lemma ncols_mat_inverse [simp]: "ncols (mat_inverse A) = nrows A"
  by (simp add: mat_inverse_def)

lemma wf_mat_inverse [simp]: "wf_tensor (mat_inverse A)"
  by (simp add: mat_inverse_def)

lemma fdiv_nonzero: "b \<noteq> 0 \<Longrightarrow> fdiv a b = Inr (a / b)"
  by (simp add: fdiv_def)

lemma mm_ok: "ncols A = nrows B \<Longrightarrow> mm A B = Inr (mat_mul A B)"
  by (simp add: mm_def)

lemma torch_inverse_ok:
  "nrows A = ncols A \<Longrightarrow> det (nrows A) (ent A) \<noteq> 0 \<Longrightarrow> torch_inverse A = Inr (mat_inverse A)"
  by (simp add: torch_inverse_def)

lemma order_func_shape:
  assumes "constructed n m" and "has_shape n n adj" and "has_shape n h res"
    and "has_shape n (nclass m) x" and "order_func m x res adj = Inr P"
  shows "has_shape n h P"
proof (cases "1 \<le> orders m")
  case True
  have "returns_shape n h (order_func1 m x res adj)"
    using assms(2,3) by (rule order_func1_returns)
  moreover have "returns_shape n h (order_func2 m x res adj)"
    using assms True by (intro order_func2_returns) (auto simp: constructed_def)
  moreover have "returns_shape n h (order_func3 m x res adj)"
    using assms True by (intro order_func3_returns[where c = "nclass m"]) (auto simp: constructed_def)
  ultimately have "returns_shape n h (order_func m x res adj)"
    by (simp add: order_func_def)
  then show ?thesis
    using assms(5) by simp
next
  case False
  then have z: "orders m = 0"
    using assms(1) by (simp add: constructed_def)
  have 1: "order_func1 m x res adj = Inr res"
    using z by (simp add: order_func1_def)
  have 2: "order_func2 m x res adj = Inl IndexError"
    using assms z by (intro order_func2_orders0) (auto simp: constructed_def has_shape_def)
  have 3: "order_func3 m x res adj = Inl IndexError"
    using assms z by (intro order_func3_orders0[where c = "nclass m"]) (auto simp: constructed_def)
  show ?thesis
    using assms(3,5) 1 2 3 by (auto simp: order_func_def split: if_splits)
qed

lemma order_func_returns:
  assumes "constructed n m" and "has_shape n n adj" and "has_shape n h res"
    and "has_shape n (nclass m) x" and "1 \<le> orders m \<or> orders_func_id m = 1"
  shows "returns_shape n h (order_func m x res adj)"
proof (cases "orders_func_id m = 1")
  case True
  then show ?thesis
    using order_func1_returns[OF assms(2,3)] by (simp add: order_func_def)
next
  case False
  then have o: "1 \<le> orders m" using assms(5) by simp
  have "returns_shape n h (order_func2 m x res adj)"
    using assms o by (intro order_func2_returns) (auto simp: constructed_def)
  moreover have "returns_shape n h (order_func3 m x res adj)"
    using assms o by (intro order_func3_returns[where c = "nclass m"]) (auto simp: constructed_def)
  ultimately show ?thesis
    using False by (simp add: order_func_def)
qed

lemma norm1_tail_eq:
  assumes "has_shape n c x" "has_shape n c h0" "has_shape c c tmp" "has_shape n c P"
  shows "norm1_tail m x h0 tmp P = Inr (spec_update m x h0 tmp P)"
proof -
  have d: "nrows x = n" "ncols x = c" "nrows h0 = n" "ncols h0 = c" "nrows tmp = c" "ncols tmp = c"
    "nrows P = n" "ncols P = c"
    using assms by (simp_all add: has_shape_def)
  show ?thesis
    by (simp add: norm1_tail_def spec_update_def spec_coe1_def d mm_ok tadd_same tsub_same)
qed

lemma norm_head:
  assumes x: "has_shape n c x" and eye: "class_eye m = eye c"
    and ab: "alpha m + beta m \<noteq> 0" and g: "gamma m \<noteq> 1"
    and inv: "det c (ent (spec_bracket m x)) \<noteq> 0"
  shows "bind_result (fdiv 1 (alpha m + beta m)) (\<lambda>coe.
     let coe1 = 1 - gamma m in
     bind_result (fdiv 1 coe1) (\<lambda>coe2.
     bind_result (mm (transpose_t x) x) (\<lambda>res.
     bind_result (tadd (smul (coe2 * coe2) (class_eye m)) (smul coe res)) (\<lambda>a.
     bind_result (torch_inverse a) (\<lambda>inv.
     bind_result (mm inv res) (\<lambda>res.
     bind_result (mm x res) (\<lambda>xres.
     bind_result (tsub (smul (coe1 * coe) x) (smul (coe1 * coe * coe) xres)) (\<lambda>d.
     k coe1 d))))))))
   = k (1 - gamma m) (spec_corrected m x)"
proof -
  have d: "nrows x = n" "ncols x = c"
    using x by (simp_all add: has_shape_def)
  have a: "mat_add (smul (1 / (1 - gamma m) * (1 / (1 - gamma m))) (eye c))
             (smul (1 / (alpha m + beta m)) (mat_mul (transpose_t x) x)) = spec_bracket m x"
    by (simp add: spec_bracket_def spec_coe2_def spec_coe1_def spec_coe_def spec_gram_def d
        power2_eq_square)
  have b: "nrows (spec_bracket m x) = c" "ncols (spec_bracket m x) = c"
    by (simp_all add: spec_bracket_def d)
  have i: "torch_inverse (spec_bracket m x) = Inr (mat_inverse (spec_bracket m x))"
    using inv by (intro torch_inverse_ok) (simp_all add: b)
  have e: "mat_sub (smul ((1 - gamma m) * (1 / (alpha m + beta m))) x)
         (smul ((1 - gamma m) * (1 / (alpha m + beta m)) * (1 / (alpha m + beta m)))
            (mat_mul x (mat_mul (mat_inverse (spec_bracket m x)) (mat_mul (transpose_t x) x))))
        = spec_corrected m x"
    by (simp add: spec_corrected_def spec_coe1_def spec_coe_def spec_gram_def power2_eq_square
        mult.assoc)
  show ?thesis
    using ab g
    by (simp add: fdiv_nonzero Let_def eye mm_ok d tadd_same a i b tsub_same e
        del: times_divide_eq_left times_divide_eq_right divide_divide_eq_left
             divide_divide_eq_right mult_cancel_left mult_cancel_right)
qed


lemma bind_result_Inr [simp]: "bind_result r Inr = r"
  by (cases r) simp_all

lemma has_shape_spec_corrected:
  "has_shape n c x \<Longrightarrow> has_shape n c (spec_corrected m x)"
  by (simp add: spec_corrected_def has_shape_def)

lemma norm_func1_eq:
  assumes m: "constructed n m" and x: "has_shape n (nclass m) x"
    and h0: "has_shape n (nclass m) h0" and adj: "has_shape n n adj"
    and ab: "alpha m + beta m \<noteq> 0" and g: "gamma m \<noteq> 1"
    and inv: "det (nclass m) (ent (spec_bracket m x)) \<noteq> 0"
  shows "norm_func1 m x h0 adj =
         bind_result (order_func m x (spec_corrected m x) adj)
           (\<lambda>propagated. Inr (spec_norm1 m x h0 propagated))"
proof -
  let ?c = "nclass m"
  let ?d = "spec_corrected m x"
  let ?tmp = "mat_mul (transpose_t x) ?d"
  have eye: "class_eye m = eye ?c"
    using m by (simp add: constructed_def)
  have dx: "nrows x = n" "ncols x = ?c"
    using x by (simp_all add: has_shape_def)
  have d: "has_shape n ?c ?d"
    using x by (rule has_shape_spec_corrected)
  then have dd: "nrows ?d = n" "ncols ?d = ?c"
    by (simp_all add: has_shape_def)
  have tmp: "has_shape ?c ?c ?tmp"
    by (simp add: dx dd)
  have head: "norm_func1 m x h0 adj =
      bind_result (mm (transpose_t x) ?d) (\<lambda>tmp.
      bind_result (order_func m x ?d adj) (\<lambda>sum_orders. norm1_tail m x h0 tmp sum_orders))"
    unfolding norm_func1_def norm1_tail_def
    by (rule norm_head[OF x eye ab g inv])
  have tail: "bind_result (order_func m x ?d adj) (\<lambda>P. norm1_tail m x h0 ?tmp P)
            = bind_result (order_func m x ?d adj) (\<lambda>P. Inr (spec_norm1 m x h0 P))"
  proof (cases "order_func m x ?d adj")
    case (Inr P)
    have "has_shape n ?c P"
      using m adj d x Inr by (rule order_func_shape)
    then show ?thesis
      by (simp add: Inr norm1_tail_eq[OF x h0 tmp] spec_norm1_def)
  qed simp
  show ?thesis
    by (simp add: head mm_ok dx dd tail)
qed

text \<open>
  Claim C1, as amended. The claim asks of the hyperparameters only \<open>alpha + beta \<noteq> 0\<close> and
  \<open>gamma \<noteq> 1\<close>. Two more conditions are needed for the call to return. For \<open>X\<close> and \<open>H0\<close> of
  shape \<open>(N, C)\<close>, an adjacency of shape \<open>(N, N)\<close>, \<open>alpha + beta \<noteq> 0\<close>, \<open>gamma \<noteq> 1\<close> and an
  invertible matrix \<open>coe2\<^sup>2 I + coe G\<close>, one call of \<^verbatim>\<open>norm_func1\<close> hands \<open>corrected\<close> to the
  selected propagation and, from the matrix \<open>propagated\<close> that returns, returns exactly
  \<open>coe1 (X tmp) + beta propagated - gamma coe1 (H0 tmp) + gamma H0\<close> with the quantities of the
  specification; an exception of the propagation is the exception of the call. The
  propagation does return when \<open>orders \<ge> 1\<close> or Strategy 1 is selected.
\<close>

theorem norm_func1_formula:
  assumes "constructed n m" and "has_shape n (nclass m) x"
    and "has_shape n (nclass m) h0" and "has_shape n n adj"
    and "alpha m + beta m \<noteq> 0" and "gamma m \<noteq> 1"
    and "det (nclass m) (ent (spec_bracket m x)) \<noteq> 0"
  shows "norm_func1 m x h0 adj =
           bind_result (order_func m x (spec_corrected m x) adj)
             (\<lambda>propagated. Inr (spec_norm1 m x h0 propagated))
       \<and> (1 \<le> orders m \<or> orders_func_id m = 1 \<longrightarrow>
            (\<exists>propagated. order_func m x (spec_corrected m x) adj = Inr propagated
               \<and> norm_func1 m x h0 adj = Inr (spec_norm1 m x h0 propagated)))"
proof
  show eq: "norm_func1 m x h0 adj =
           bind_result (order_func m x (spec_corrected m x) adj)
             (\<lambda>propagated. Inr (spec_norm1 m x h0 propagated))"
    using assms by (rule norm_func1_eq)
  show "1 \<le> orders m \<or> orders_func_id m = 1 \<longrightarrow>
            (\<exists>propagated. order_func m x (spec_corrected m x) adj = Inr propagated
               \<and> norm_func1 m x h0 adj = Inr (spec_norm1 m x h0 propagated))"
  proof
    assume o: "1 \<le> orders m \<or> orders_func_id m = 1"
    have "returns_shape n (nclass m) (order_func m x (spec_corrected m x) adj)"
      using assms(1,4) has_shape_spec_corrected[OF assms(2)] assms(2) o
      by (rule order_func_returns)
    then obtain P where "order_func m x (spec_corrected m x) adj = Inr P"
      by (rule returns_shapeE)
    then show "\<exists>propagated. order_func m x (spec_corrected m x) adj = Inr propagated
               \<and> norm_func1 m x h0 adj = Inr (spec_norm1 m x h0 propagated)"
      by (simp add: eq)
  qed
qed

theorem norm_func1_formula_witness:
  "constructed 2 demo_model \<and> has_shape 2 (nclass demo_model) demo_x
   \<and> has_shape 2 (nclass demo_model) demo_h0 \<and> has_shape 2 2 demo_adj
   \<and> alpha demo_model + beta demo_model \<noteq> 0 \<and> gamma demo_model \<noteq> 1
   \<and> det (nclass demo_model) (ent (spec_bracket demo_model demo_x)) \<noteq> 0
   \<and> (1 \<le> orders demo_model \<or> orders_func_id demo_model = 1)
   \<and> order_func demo_model demo_x (spec_corrected demo_model demo_x) demo_adj
       = Inr (Tensor 2 2 [[31/58, 19/58], [12/29, 27/29]])
   \<and> norm_func1 demo_model demo_x demo_h0 demo_adj
       = Inr (spec_norm1 demo_model demo_x demo_h0 (Tensor 2 2 [[31/58, 19/58], [12/29, 27/29]]))
   \<and> norm_func1 demo_model demo_x demo_h0 demo_adj
       = Inr (Tensor 2 2 [[61/58, 43/58], [21/29, 69/29]])"
proof -
  have a: "constructed 2 demo_model" by code_simp
  have b: "has_shape 2 (nclass demo_model) demo_x" by code_simp
  have c: "has_shape 2 (nclass demo_model) demo_h0" by code_simp
  have d: "has_shape 2 2 demo_adj" by code_simp
  have e: "alpha demo_model + beta demo_model \<noteq> 0" by (simp add: demo_model_def)
  have f: "gamma demo_model \<noteq> 1" by (simp add: demo_model_def)
  have g: "det (nclass demo_model) (ent (spec_bracket demo_model demo_x)) \<noteq> 0" by code_simp
  have h: "1 \<le> orders demo_model \<or> orders_func_id demo_model = 1" by (simp add: demo_model_def)
  have i: "order_func demo_model demo_x (spec_corrected demo_model demo_x) demo_adj
       = Inr (Tensor 2 2 [[31/58, 19/58], [12/29, 27/29]])" by code_simp
  have j: "norm_func1 demo_model demo_x demo_h0 demo_adj
       = Inr (Tensor 2 2 [[61/58, 43/58], [21/29, 69/29]])" by code_simp
  have k: "norm_func1 demo_model demo_x demo_h0 demo_adj
       = Inr (spec_norm1 demo_model demo_x demo_h0 (Tensor 2 2 [[31/58, 19/58], [12/29, 27/29]]))"
    using norm_func1_formula[OF a b c d e f g, THEN conjunct1] by (simp add: i)
  show ?thesis
    by (intro conjI a b c d e f g h i j k)
qed

lemma mat_add_smul_0:
  assumes "wf_tensor A" "nrows P = nrows A" "ncols P = ncols A"
  shows "mat_add A (smul 0 P) = A"
proof -
  have "mk (nrows A) (ncols A) (\<lambda>i j. ent A i j + ent (smul 0 P) i j) = mk (nrows A) (ncols A) (ent A)"
    using assms by (intro mk_cong) (simp add: smul_def)
  then show ?thesis
    using assms(1) by (simp add: mat_add_def mk_ent)
qed

lemma spec_norm1_beta0:
  assumes "beta m = 0" "has_shape n c x" "has_shape n c P"
  shows "spec_norm1 m x h0 P = spec_beta0 m x h0"
proof -
  let ?A = "smul (spec_coe1 m) (mat_mul x (mat_mul (transpose_t x) (spec_corrected m x)))"
  have "nrows P = nrows ?A" "ncols P = ncols ?A"
    using assms(2,3) by (simp_all add: has_shape_def spec_corrected_def)
  then have "mat_add ?A (smul 0 P) = ?A"
    by (intro mat_add_smul_0) simp_all
  then show ?thesis
    by (simp add: spec_norm1_def spec_update_def spec_beta0_def assms(1) Let_def)
qed

text \<open>
  Claim C1 as stated fails: with \<open>alpha + beta \<noteq> 0\<close> and \<open>gamma \<noteq> 1\<close> the call can raise. With
  \<open>alpha + beta = - 1\<close>, \<open>gamma = 0\<close> and \<open>X\<close> the unit matrix the matrix to invert is
  \<open>I - I = 0\<close> and \<^verbatim>\<open>torch.inverse\<close> raises; on a model built with \<open>orders = 0\<close> and Strategy 2
  the propagation raises an index error.
\<close>

theorem norm_func1_raises:
  "alpha demo_model_singular + beta demo_model_singular \<noteq> 0 \<and> gamma demo_model_singular \<noteq> 1
   \<and> spec_bracket demo_model_singular demo_unit_x = Tensor 2 2 [[0, 0], [0, 0]]
   \<and> norm_func1 demo_model_singular demo_unit_x demo_h0 demo_adj = Inl SingularMatrix
   \<and> alpha demo_model0_strategy2 + beta demo_model0_strategy2 \<noteq> 0
   \<and> gamma demo_model0_strategy2 \<noteq> 1
   \<and> det 2 (ent (spec_bracket demo_model0_strategy2 demo_x)) = 29
   \<and> norm_func1 demo_model0_strategy2 demo_x demo_h0 demo_adj = Inl IndexError"
proof -
  have a: "spec_bracket demo_model_singular demo_unit_x = Tensor 2 2 [[0, 0], [0, 0]]"
    by code_simp
  have b: "norm_func1 demo_model_singular demo_unit_x demo_h0 demo_adj = Inl SingularMatrix"
    by code_simp
  have c: "det 2 (ent (spec_bracket demo_model0_strategy2 demo_x)) = 29"
    by code_simp
  have d: "norm_func1 demo_model0_strategy2 demo_x demo_h0 demo_adj = Inl IndexError"
    by code_simp
  show ?thesis
    by (simp add: a b c d)
      (simp add: demo_model_singular_def demo_model0_strategy2_def demo_model0_def demo_model_def)
qed

lemma norm_func1_beta0_finite:
  assumes "constructed n m" and "has_shape n (nclass m) x"
    and "has_shape n (nclass m) h0" and "has_shape n n adj"
    and "beta m = 0" and "alpha m \<noteq> 0" and "gamma m \<noteq> 1"
    and "det (nclass m) (ent (spec_bracket m x)) \<noteq> 0"
    and "1 \<le> orders m \<or> orders_func_id m = 1"
  shows "norm_func1 m x h0 adj = Inr (spec_beta0 m x h0)"
proof -
  have ab: "alpha m + beta m \<noteq> 0"
    using assms(5,6) by simp
  have eq: "norm_func1 m x h0 adj =
           bind_result (order_func m x (spec_corrected m x) adj)
             (\<lambda>propagated. Inr (spec_norm1 m x h0 propagated))"
    using assms(1-4) ab assms(7,8) by (rule norm_func1_eq)
  have "returns_shape n (nclass m) (order_func m x (spec_corrected m x) adj)"
    using assms(1,4) has_shape_spec_corrected[OF assms(2)] assms(2,9)
    by (rule order_func_returns)
  then obtain P where P: "order_func m x (spec_corrected m x) adj = Inr P"
      and s: "has_shape n (nclass m) P"
    by (rule returns_shapeE)
  show ?thesis
    by (simp add: eq P spec_norm1_beta0[OF assms(5,2) s])
qed

subsection \<open>The step on floats with \<^verbatim>\<open>inf\<close> and \<^verbatim>\<open>nan\<close>\<close>

text \<open>
  On tensors of finite numbers every operation on floats returns what the exact operation
  returns, so \<open>norm_func1_ieee\<close> and \<open>norm_func1\<close> agree whenever \<open>alpha + beta \<noteq> 0\<close> and
  \<open>gamma \<noteq> 1\<close>.
\<close>

lemma xnrows_xmk [simp]: "xnrows (xmk n k f) = n"
  by (simp add: xmk_def)

lemma xncols_xmk [simp]: "xncols (xmk n k f) = k"
  by (simp add: xmk_def)

lemma xent_xmk [simp]: "i < n \<Longrightarrow> j < k \<Longrightarrow> xent (xmk n k f) i j = f i j"
  by (simp add: xent_def xmk_def)

lemma xmk_cong: "(\<And>i j. i < n \<Longrightarrow> j < k \<Longrightarrow> f i j = g i j) \<Longrightarrow> xmk n k f = xmk n k g"
  by (simp add: xmk_def)

lemma xnrows_emb [simp]: "xnrows (emb T) = nrows T"
  by (simp add: emb_def)

lemma xncols_emb [simp]: "xncols (emb T) = ncols T"
  by (simp add: emb_def)

lemma xent_emb [simp]: "i < nrows T \<Longrightarrow> j < ncols T \<Longrightarrow> xent (emb T) i j = Fin (ent T i j)"
  by (simp add: emb_def)

lemma emb_mk: "emb (mk n k f) = xmk n k (\<lambda>i j. Fin (f i j))"
  unfolding emb_def nrows_mk ncols_mk by (rule xmk_cong) simp

lemma xsum_Fin: "xsum (map (\<lambda>l. Fin (f l)) xs) = Fin (sum_list (map f xs))"
  by (induction xs) (simp_all add: xsum_def)

lemma xsum_Fin_upt: "xsum (map (\<lambda>l. Fin (f l)) [0..<k]) = Fin (\<Sum>l<k. f l)"
  by (simp add: xsum_Fin interv_sum_list_conv_sum_set_nat atLeast_upt)

lemma xsum_upt_cong:
  "(\<And>l. l < k \<Longrightarrow> f l = g l) \<Longrightarrow> xsum (map f [0..<k]) = xsum (map g [0..<k])"
proof -
  assume "\<And>l. l < k \<Longrightarrow> f l = g l"
  then have "map f [0..<k] = map g [0..<k]"
    by (intro map_cong) simp_all
  then show ?thesis by (simp only:)
qed

lemma bind_map_result [simp]:
  "bind_result (map_result g r) F = bind_result r (\<lambda>v. F (g v))"
  by (cases r) simp_all

lemma map_result_bind:
  "map_result g (bind_result r F) = bind_result r (\<lambda>v. map_result g (F v))"
  by (cases r) simp_all

lemma x_mm_emb [simp]: "x_mm (emb A) (emb B) = map_result emb (mm A B)"
proof (cases "ncols A = nrows B")
  case True
  have "xmk (nrows A) (ncols B)
          (\<lambda>i j. xsum (map (\<lambda>l. xmul (xent (emb A) i l) (xent (emb B) l j)) [0..<ncols A]))
      = xmk (nrows A) (ncols B) (\<lambda>i j. Fin (\<Sum>l<ncols A. ent A i l * ent B l j))"
  proof (rule xmk_cong)
    fix i j assume "i < nrows A" "j < ncols B"
    then have "xsum (map (\<lambda>l. xmul (xent (emb A) i l) (xent (emb B) l j)) [0..<ncols A])
             = xsum (map (\<lambda>l. Fin (ent A i l * ent B l j)) [0..<ncols A])"
      using True by (intro xsum_upt_cong) simp
    then show "xsum (map (\<lambda>l. xmul (xent (emb A) i l) (xent (emb B) l j)) [0..<ncols A])
             = Fin (\<Sum>l<ncols A. ent A i l * ent B l j)"
      by (simp add: xsum_Fin_upt)
  qed
  then show ?thesis
    using True by (simp add: x_mm_def mm_def mat_mul_def emb_mk)
next
  case False
  then show ?thesis
    by (simp add: x_mm_def mm_def)
qed

lemma x_spmm_emb [simp]: "x_spmm (emb A) (emb B) = map_result emb (spmm A B)"
proof (cases "ncols A = nrows B")
  case True
  have "xmk (nrows A) (ncols B)
          (\<lambda>i j. xsum (map (\<lambda>l. if xent (emb A) i l = Fin 0 then Fin 0
                                 else xmul (xent (emb A) i l) (xent (emb B) l j)) [0..<ncols A]))
      = xmk (nrows A) (ncols B) (\<lambda>i j. Fin (\<Sum>l<ncols A. ent A i l * ent B l j))"
  proof (rule xmk_cong)
    fix i j assume "i < nrows A" "j < ncols B"
    then have "xsum (map (\<lambda>l. if xent (emb A) i l = Fin 0 then Fin 0
                                 else xmul (xent (emb A) i l) (xent (emb B) l j)) [0..<ncols A])
             = xsum (map (\<lambda>l. Fin (ent A i l * ent B l j)) [0..<ncols A])"
      using True by (intro xsum_upt_cong) simp
    then show "xsum (map (\<lambda>l. if xent (emb A) i l = Fin 0 then Fin 0
                                 else xmul (xent (emb A) i l) (xent (emb B) l j)) [0..<ncols A])
             = Fin (\<Sum>l<ncols A. ent A i l * ent B l j)"
      by (simp add: xsum_Fin_upt)
  qed
  then show ?thesis
    using True by (simp add: x_spmm_def spmm_def mm_def mat_mul_def emb_mk)
next
  case False
  then show ?thesis
    by (simp add: x_spmm_def spmm_def mm_def)
qed

lemma x_transpose_emb [simp]: "x_transpose (emb A) = emb (transpose_t A)"
  unfolding x_transpose_def transpose_t_def emb_mk xnrows_emb xncols_emb
  by (rule xmk_cong) simp

lemma x_smul_emb [simp]: "x_smul (Fin c) (emb A) = emb (smul c A)"
  unfolding x_smul_def smul_def emb_mk xnrows_emb xncols_emb
  by (rule xmk_cong) simp

lemma x_relu_emb [simp]: "x_relu (emb A) = emb (relu A)"
  unfolding x_relu_def relu_def emb_mk xnrows_emb xncols_emb
  by (rule xmk_cong) simp

lemma xbent_emb:
  assumes "nrows A = 1 \<or> i < nrows A" "ncols A = 1 \<or> j < ncols A"
  shows "xbent (emb A) i j = Fin (bent A i j)"
  using assms by (auto simp: xbent_def bent_def)

lemma x_broadcast2_emb:
  assumes "\<And>a b. f (Fin a) (Fin b) = Fin (g a b)"
  shows "x_broadcast2 f (emb A) (emb B) = map_result emb (broadcast2 g A B)"
proof (cases "bdim (nrows A) (nrows B)")
  case None
  then show ?thesis by (simp add: x_broadcast2_def broadcast2_def)
next
  case n: (Some n)
  show ?thesis
  proof (cases "bdim (ncols A) (ncols B)")
    case None
    then show ?thesis by (simp add: x_broadcast2_def broadcast2_def n)
  next
    case k: (Some k)
    have "xmk n k (\<lambda>i j. f (xbent (emb A) i j) (xbent (emb B) i j))
        = xmk n k (\<lambda>i j. Fin (g (bent A i j) (bent B i j)))"
    proof (rule xmk_cong)
      fix i j assume i: "i < n" and j: "j < k"
      have "nrows A = 1 \<or> i < nrows A" "nrows B = 1 \<or> i < nrows B"
        using n i by (auto simp: bdim_def split: if_splits)
      moreover have "ncols A = 1 \<or> j < ncols A" "ncols B = 1 \<or> j < ncols B"
        using k j by (auto simp: bdim_def split: if_splits)
      ultimately show "f (xbent (emb A) i j) (xbent (emb B) i j) = Fin (g (bent A i j) (bent B i j))"
        by (simp add: xbent_emb assms)
    qed
    then show ?thesis
      by (simp add: x_broadcast2_def broadcast2_def n k emb_mk)
  qed
qed

lemma x_tadd_emb [simp]: "x_tadd (emb A) (emb B) = map_result emb (tadd A B)"
  unfolding x_tadd_def tadd_def by (rule x_broadcast2_emb) simp

lemma x_tsub_emb [simp]: "x_tsub (emb A) (emb B) = map_result emb (tsub A B)"
  unfolding x_tsub_def tsub_def by (rule x_broadcast2_emb) (simp add: xsub_def)

lemma x_tmul_emb [simp]: "x_tmul (emb A) (emb B) = map_result emb (tmul A B)"
  unfolding x_tmul_def tmul_def by (rule x_broadcast2_emb) simp

lemma x_index0_emb [simp]: "x_index0 (emb A) i = map_result (map Fin) (index0 A i)"
  by (simp add: x_index0_def index0_def)

lemma x_row_tensor_Fin [simp]: "x_row_tensor (map Fin v) = emb (row_tensor v)"
  unfolding x_row_tensor_def row_tensor_def emb_mk length_map by (rule xmk_cong) simp

lemma x_unsqueeze1_Fin [simp]: "x_unsqueeze1 (map Fin v) = emb (unsqueeze1 v)"
  unfolding x_unsqueeze1_def unsqueeze1_def emb_mk length_map by (rule xmk_cong) simp

lemma skip_less: "c < n \<Longrightarrow> skip j c < Suc n"
  by (simp add: skip_def)

lemma x_det_cong:
  "(\<And>r c. r < n \<Longrightarrow> c < n \<Longrightarrow> f r c = g r c) \<Longrightarrow> x_det n f = x_det n g"
proof (induction n arbitrary: f g)
  case 0
  show ?case by simp
next
  case (Suc n)
  have "map (\<lambda>j. xmul (xmul (Fin ((- 1) ^ j)) (f 0 j)) (x_det n (\<lambda>r c. f (Suc r) (skip j c))))
          [0..<Suc n]
      = map (\<lambda>j. xmul (xmul (Fin ((- 1) ^ j)) (g 0 j)) (x_det n (\<lambda>r c. g (Suc r) (skip j c))))
          [0..<Suc n]"
  proof (rule map_cong[OF refl])
    fix j assume "j \<in> set [0..<Suc n]"
    then have j: "j < Suc n" by auto
    have "x_det n (\<lambda>r c. f (Suc r) (skip j c)) = x_det n (\<lambda>r c. g (Suc r) (skip j c))"
      by (rule Suc.IH) (simp add: Suc.prems skip_less)
    then show "xmul (xmul (Fin ((- 1) ^ j)) (f 0 j)) (x_det n (\<lambda>r c. f (Suc r) (skip j c)))
             = xmul (xmul (Fin ((- 1) ^ j)) (g 0 j)) (x_det n (\<lambda>r c. g (Suc r) (skip j c)))"
      using j by (simp add: Suc.prems)
  qed
  then show ?case
    by (simp only: x_det.simps)
qed

lemma x_det_Fin: "x_det n (\<lambda>r c. Fin (f r c)) = Fin (det n f)"
proof (induction n arbitrary: f)
  case 0
  show ?case by simp
next
  case (Suc n)
  have "x_det (Suc n) (\<lambda>r c. Fin (f r c))
      = xsum (map (\<lambda>j. Fin ((- 1) ^ j * f 0 j * det n (\<lambda>r c. f (Suc r) (skip j c)))) [0..<Suc n])"
    by (simp only: x_det.simps Suc.IH xmul.simps)
  also have "\<dots> = Fin (\<Sum>j<Suc n. (- 1) ^ j * f 0 j * det n (\<lambda>r c. f (Suc r) (skip j c)))"
    by (rule xsum_Fin_upt)
  finally show ?case
    by (simp only: det.simps)
qed

lemma x_det_emb:
  assumes "n \<le> nrows A" "n \<le> ncols A"
  shows "x_det n (xent (emb A)) = Fin (det n (ent A))"
proof -
  have "x_det n (xent (emb A)) = x_det n (\<lambda>r c. Fin (ent A r c))"
    using assms by (intro x_det_cong) simp
  then show ?thesis
    by (simp only: x_det_Fin)
qed

lemma x_cofactor_emb:
  assumes "nrows A = n" "ncols A = n" "i < n" "j < n"
  shows "x_cofactor n (xent (emb A)) i j = Fin (cofactor n (ent A) i j)"
proof -
  have "x_det (n - 1) (\<lambda>r c. xent (emb A) (skip i r) (skip j c))
      = x_det (n - 1) (\<lambda>r c. Fin (ent A (skip i r) (skip j c)))"
  proof (rule x_det_cong)
    fix r c assume "r < n - 1" "c < n - 1"
    then have "skip i r < n" "skip j c < n"
      by (auto simp: skip_def)
    then show "xent (emb A) (skip i r) (skip j c) = Fin (ent A (skip i r) (skip j c))"
      using assms(1,2) by simp
  qed
  then show ?thesis
    by (simp add: x_cofactor_def cofactor_def x_det_Fin)
qed

lemma x_inverse_emb [simp]: "x_inverse (emb A) = map_result emb (torch_inverse A)"
proof (cases "nrows A = ncols A")
  case False
  then show ?thesis
    by (simp add: x_inverse_def torch_inverse_def)
next
  case True
  define n where "n = nrows A"
  have nr: "nrows A = n" and nc: "ncols A = n"
    using True by (simp_all add: n_def)
  have d: "x_det n (xent (emb A)) = Fin (det n (ent A))"
    by (rule x_det_emb) (simp_all add: nr nc)
  show ?thesis
  proof (cases "det n (ent A) = 0")
    case z: True
    then show ?thesis
      by (simp add: x_inverse_def torch_inverse_def nr nc d)
  next
    case nz: False
    have "xmk n n (\<lambda>i j. xdiv (x_cofactor n (xent (emb A)) j i) (Fin (det n (ent A))))
        = xmk n n (\<lambda>i j. Fin (cofactor n (ent A) j i / det n (ent A)))"
      using nz by (intro xmk_cong) (simp add: x_cofactor_emb[OF nr nc])
    then show ?thesis
      using nz by (simp add: x_inverse_def torch_inverse_def nr nc d mat_inverse_def emb_mk)
  qed
qed

lemma x_order1_loop_emb [simp]:
  "x_order1_loop k (emb adj) (emb t) (emb s) = map_result emb (order1_loop k adj t s)"
  by (induction k arbitrary: t s) (simp_all add: map_result_bind)

lemma x_order2_loop_emb [simp]:
  "x_order2_loop (emb w) is (emb adj) (emb t) (emb s) = map_result emb (order2_loop w is adj t s)"
  by (induction "is" arbitrary: t s) (simp_all add: map_result_bind)

lemma x_order3_loop_emb [simp]:
  "x_order3_loop (emb p) is (emb adj) (emb t) (emb s) = map_result emb (order3_loop p is adj t s)"
  by (induction "is" arbitrary: t s) (simp_all add: map_result_bind)

lemma x_order_func_emb [simp]:
  "x_order_func m (emb x) (emb res) (emb adj) = map_result emb (order_func m x res adj)"
  by (simp add: x_order_func_def order_func_def x_order_func1_def order_func1_def
      x_order_func2_def order_func2_def x_order_func3_def order_func3_def map_result_bind Let_def)

lemma ieee_after_inverse:
  "bind_result (x_mm (emb I) (emb G)) (\<lambda>res.
   bind_result (x_mm (emb x) res) (\<lambda>xres.
   bind_result (x_tsub (x_smul (xmul (Fin c1) (Fin c)) (emb x))
                  (x_smul (xmul (xmul (Fin c1) (Fin c)) (Fin c)) xres)) (\<lambda>res.
   bind_result (x_mm (x_transpose (emb x)) res) (\<lambda>tmp.
   bind_result (x_order_func m (emb x) res (emb adj)) (\<lambda>sum_orders.
   bind_result (x_mm (emb x) tmp) (\<lambda>xtmp.
   bind_result (x_tadd (x_smul (Fin c1) xtmp) (x_smul (Fin b) sum_orders)) (\<lambda>s1.
   bind_result (x_mm (emb h0) tmp) (\<lambda>htmp.
   bind_result (x_tsub s1 (x_smul (xmul (Fin g) (Fin c1)) htmp)) (\<lambda>s2.
   x_tadd s2 (x_smul (Fin g) (emb h0)))))))))))
 = map_result emb
    (bind_result (mm I G) (\<lambda>res.
     bind_result (mm x res) (\<lambda>xres.
     bind_result (tsub (smul (c1 * c) x) (smul (c1 * c * c) xres)) (\<lambda>res.
     bind_result (mm (transpose_t x) res) (\<lambda>tmp.
     bind_result (order_func m x res adj) (\<lambda>sum_orders.
     bind_result (mm x tmp) (\<lambda>xtmp.
     bind_result (tadd (smul c1 xtmp) (smul b sum_orders)) (\<lambda>s1.
     bind_result (mm h0 tmp) (\<lambda>htmp.
     bind_result (tsub s1 (smul (g * c1) htmp)) (\<lambda>s2.
     tadd s2 (smul g h0)))))))))))"
  by (simp add: map_result_bind
      del: mult_cancel_left mult_cancel_right mult_eq_0_iff)

lemma norm_func1_ieee_finite:
  assumes "alpha m + beta m \<noteq> 0" and "gamma m \<noteq> 1"
  shows "norm_func1_ieee m (emb x) (emb h0) (emb adj) = map_result emb (norm_func1 m x h0 adj)"
  using assms
  by (simp add: norm_func1_ieee_def norm_func1_def fdiv_def Let_def map_result_bind
      del: mult_cancel_left mult_cancel_right mult_eq_0_iff times_divide_eq_left
        times_divide_eq_right divide_divide_eq_left divide_divide_eq_right)

lemma tensor_eqI:
  assumes "has_shape n k A" "has_shape n k B"
    and "\<And>i j. i < n \<Longrightarrow> j < k \<Longrightarrow> ent A i j = ent B i j"
  shows "A = B"
proof -
  have "mk n k (ent A) = mk n k (ent B)"
    by (rule mk_cong) (rule assms(3))
  then show ?thesis
    by (simp only: has_shape_mk_ent[OF assms(1)] has_shape_mk_ent[OF assms(2)])
qed

lemma ent_mat_add: "i < nrows A \<Longrightarrow> j < ncols A \<Longrightarrow> ent (mat_add A B) i j = ent A i j + ent B i j"
  by (simp add: mat_add_def)

lemma ent_mat_sub: "i < nrows A \<Longrightarrow> j < ncols A \<Longrightarrow> ent (mat_sub A B) i j = ent A i j - ent B i j"
  by (simp add: mat_sub_def)

lemma ent_smul: "i < nrows A \<Longrightarrow> j < ncols A \<Longrightarrow> ent (smul c A) i j = c * ent A i j"
  by (simp add: smul_def)

lemma spec_update_gamma1:
  assumes "gamma m = 1" "beta m = 0" "has_shape n c x" "has_shape n c h0" "has_shape c c tmp"
    "has_shape n c P"
  shows "spec_update m x h0 tmp P = h0"
proof (rule tensor_eqI[where n = n and k = c])
  have d: "nrows x = n" "ncols x = c" "nrows h0 = n" "ncols h0 = c" "nrows tmp = c" "ncols tmp = c"
    "nrows P = n" "ncols P = c"
    using assms(3-6) by (simp_all add: has_shape_def)
  show "has_shape n c (spec_update m x h0 tmp P)"
    by (simp add: spec_update_def has_shape_def d)
  show "has_shape n c h0"
    by (rule assms(4))
  fix i j assume "i < n" "j < c"
  then show "ent (spec_update m x h0 tmp P) i j = ent h0 i j"
    by (simp add: spec_update_def spec_coe1_def assms(1,2) d ent_mat_add ent_mat_sub ent_smul)
qed

lemma ieee_bracket_gamma1:
  assumes "has_shape 1 1 G"
  shows "x_tadd (x_smul (xmul PInf PInf) (emb (eye 1))) (x_smul (Fin c) (emb G))
       = Inr (XTensor 1 1 [[PInf]])"
proof -
  have d: "nrows G = 1" "ncols G = 1"
    using assms by (simp_all add: has_shape_def)
  have e: "xent (emb (eye 1)) 0 0 = Fin 1"
    by (simp add: eye_def)
  have e': "ent (eye (Suc 0)) 0 0 = 1"
    by (simp add: eye_def)
  have s: "xent (emb (smul c G)) 0 0 = Fin (c * ent G 0 0)"
    by (simp add: d ent_smul)
  show ?thesis
    by (simp add: x_tadd_def x_broadcast2_def bdim_def d xbent_def x_smul_def e e' s)
      (simp add: xmk_def e e')
qed

lemma x_inverse_inf: "x_inverse (XTensor 1 1 [[PInf]]) = Inr (emb (mk 1 1 (\<lambda>i j. 0)))"
  by (simp add: x_inverse_def x_cofactor_def xmk_def xent_def xsum_def emb_def mk_def ent_def)

lemma norm_func1_ieee_gamma1:
  assumes m: "constructed n m" and x: "has_shape n (nclass m) x"
    and h0: "has_shape n (nclass m) h0" and adj: "has_shape n n adj"
    and c: "nclass m = 1" and b: "beta m = 0" and a: "alpha m \<noteq> 0" and g: "gamma m = 1"
    and o: "1 \<le> orders m \<or> orders_func_id m = 1"
  shows "norm_func1_ieee m (emb x) (emb h0) (emb adj) = Inr (emb h0)"
proof -
  let ?G = "mat_mul (transpose_t x) x"
  let ?Z = "mk 1 1 (\<lambda>i j. 0)"
  let ?c = "1 / (alpha m + beta m)"
  let ?c1 = "1 - gamma m"
  have x1: "has_shape n 1 x" and h1: "has_shape n 1 h0"
    using x h0 c by simp_all
  have dx: "nrows x = n" "ncols x = 1" "nrows h0 = n" "ncols h0 = 1"
    using x1 h1 by (simp_all add: has_shape_def)
  have eye: "class_eye m = eye 1"
    using m c by (simp add: constructed_def)
  have G: "has_shape 1 1 ?G"
    by (simp add: dx)
  have coe: "xdiv (Fin 1) (Fin (alpha m + beta m)) = Fin ?c"
    using a b by simp
  have coe2: "xdiv (Fin 1) (Fin (1 - gamma m)) = PInf"
    using g by simp
  have gram: "x_mm (x_transpose (emb x)) (emb x) = Inr (emb ?G)"
    by (simp add: mm_ok dx)
  note br = ieee_bracket_gamma1[OF G, of ?c]
  have head: "norm_func1_ieee m (emb x) (emb h0) (emb adj) =
     bind_result (x_mm (emb ?Z) (emb ?G)) (\<lambda>res.
     bind_result (x_mm (emb x) res) (\<lambda>xres.
     bind_result (x_tsub (x_smul (xmul (Fin ?c1) (Fin ?c)) (emb x))
                    (x_smul (xmul (xmul (Fin ?c1) (Fin ?c)) (Fin ?c)) xres)) (\<lambda>res.
     bind_result (x_mm (x_transpose (emb x)) res) (\<lambda>tmp.
     bind_result (x_order_func m (emb x) res (emb adj)) (\<lambda>sum_orders.
     bind_result (x_mm (emb x) tmp) (\<lambda>xtmp.
     bind_result (x_tadd (x_smul (Fin ?c1) xtmp) (x_smul (Fin (beta m)) sum_orders)) (\<lambda>s1.
     bind_result (x_mm (emb h0) tmp) (\<lambda>htmp.
     bind_result (x_tsub s1 (x_smul (xmul (Fin (gamma m)) (Fin ?c1)) htmp)) (\<lambda>s2.
     x_tadd s2 (x_smul (Fin (gamma m)) (emb h0)))))))))))"
    unfolding norm_func1_ieee_def Let_def coe coe2 gram bind_result.simps eye br x_inverse_inf
    by (rule refl)
  let ?R = "mat_mul ?Z ?G"
  let ?XR = "mat_mul x ?R"
  let ?D = "mat_sub (smul (?c1 * ?c) x) (smul (?c1 * ?c * ?c) ?XR)"
  let ?T = "mat_mul (transpose_t x) ?D"
  have 1: "mm ?Z ?G = Inr ?R"
    by (rule mm_ok) (simp add: dx)
  have 2: "mm x ?R = Inr ?XR"
    by (rule mm_ok) (simp add: dx)
  have 3: "tsub (smul (?c1 * ?c) x) (smul (?c1 * ?c * ?c) ?XR) = Inr ?D"
    by (rule tsub_same) simp_all
  have D: "has_shape n 1 ?D"
    by (simp add: has_shape_def dx)
  have 4: "mm (transpose_t x) ?D = Inr ?T"
    by (rule mm_ok) (simp add: dx)
  have T: "has_shape 1 1 ?T"
    by (simp add: dx)
  have "returns_shape n 1 (order_func m x ?D adj)"
    using m adj D x o by (rule order_func_returns)
  then obtain P where 5: "order_func m x ?D adj = Inr P" and P: "has_shape n 1 P"
    by (rule returns_shapeE)
  have 6: "norm1_tail m x h0 ?T P = Inr h0"
    by (simp only: norm1_tail_eq[OF x1 h1 T P] spec_update_gamma1[OF g b x1 h1 T P])
  have tail: "bind_result (mm ?Z ?G) (\<lambda>res.
     bind_result (mm x res) (\<lambda>xres.
     bind_result (tsub (smul (?c1 * ?c) x) (smul (?c1 * ?c * ?c) xres)) (\<lambda>res.
     bind_result (mm (transpose_t x) res) (\<lambda>tmp.
     bind_result (order_func m x res adj) (\<lambda>sum_orders.
     bind_result (mm x tmp) (\<lambda>xtmp.
     bind_result (tadd (smul ?c1 xtmp) (smul (beta m) sum_orders)) (\<lambda>s1.
     bind_result (mm h0 tmp) (\<lambda>htmp.
     bind_result (tsub s1 (smul (gamma m * ?c1) htmp)) (\<lambda>s2.
     tadd s2 (smul (gamma m) h0)))))))))) = Inr h0"
    by (simp only: 1 2 3 4 5 bind_result.simps 6[unfolded norm1_tail_def])
  show ?thesis
    by (simp only: head ieee_after_inverse tail map_result.simps)
qed

text \<open>
  Claim C4, as amended. The claim sets \<open>beta = 0\<close> and \<open>gamma = 1\<close>, where
  \<open>coe2 = 1 / (1 - gamma)\<close> is \<^verbatim>\<open>inf\<close>. For \<open>X\<close> and \<open>H0\<close> of shape \<open>(N, C)\<close>, an adjacency of
  shape \<open>(N, N)\<close>, \<open>beta = 0\<close>, \<open>alpha \<noteq> 0\<close> and a propagation that is defined (\<open>orders \<ge> 1\<close> or
  Strategy 1), \<^verbatim>\<open>norm_func1\<close> on floats returns

  \<^item> for \<open>gamma \<noteq> 1\<close> and an invertible matrix \<open>coe2\<^sup>2 I + coe G\<close>: the matrix
    \<open>coe1 (X tmp) - gamma coe1 (H0 tmp) + gamma H0\<close>, in which neither the adjacency nor the
    propagated matrix occurs (the propagation contributes nothing);

  \<^item> for \<open>gamma = 1\<close> and one class: exactly \<open>H0\<close> (the matrix to invert is \<^verbatim>\<open>[[inf]]\<close>, its
    inverse \<^verbatim>\<open>[[0]]\<close>, and every later term but \<open>gamma H0\<close> is zero).
\<close>

theorem norm_func1_ieee_beta0:
  assumes "constructed n m" and "has_shape n (nclass m) x"
    and "has_shape n (nclass m) h0" and "has_shape n n adj"
    and "beta m = 0" and "alpha m \<noteq> 0"
    and "1 \<le> orders m \<or> orders_func_id m = 1"
  shows "(gamma m \<noteq> 1 \<and> det (nclass m) (ent (spec_bracket m x)) \<noteq> 0 \<longrightarrow>
            norm_func1_ieee m (emb x) (emb h0) (emb adj) = Inr (emb (spec_beta0 m x h0)))
       \<and> (gamma m = 1 \<and> nclass m = 1 \<longrightarrow>
            norm_func1_ieee m (emb x) (emb h0) (emb adj) = Inr (emb h0))"
proof (intro conjI impI)
  assume g: "gamma m \<noteq> 1 \<and> det (nclass m) (ent (spec_bracket m x)) \<noteq> 0"
  have ab: "alpha m + beta m \<noteq> 0"
    using assms(5,6) by simp
  have "norm_func1 m x h0 adj = Inr (spec_beta0 m x h0)"
    using assms(1-6) g[THEN conjunct1] g[THEN conjunct2] assms(7) by (rule norm_func1_beta0_finite)
  then show "norm_func1_ieee m (emb x) (emb h0) (emb adj) = Inr (emb (spec_beta0 m x h0))"
    using g by (simp add: norm_func1_ieee_finite[OF ab])
next
  assume g: "gamma m = 1 \<and> nclass m = 1"
  show "norm_func1_ieee m (emb x) (emb h0) (emb adj) = Inr (emb h0)"
    using assms(1-4) g[THEN conjunct2] assms(5,6) g[THEN conjunct1] assms(7)
    by (rule norm_func1_ieee_gamma1)
qed

theorem norm_func1_ieee_beta0_witness:
  "constructed 2 demo_model_beta0 \<and> has_shape 2 (nclass demo_model_beta0) demo_x
   \<and> has_shape 2 (nclass demo_model_beta0) demo_h0 \<and> has_shape 2 2 demo_adj
   \<and> beta demo_model_beta0 = 0 \<and> alpha demo_model_beta0 \<noteq> 0
   \<and> (1 \<le> orders demo_model_beta0 \<or> orders_func_id demo_model_beta0 = 1)
   \<and> gamma demo_model_beta0 \<noteq> 1
   \<and> det (nclass demo_model_beta0) (ent (spec_bracket demo_model_beta0 demo_x)) \<noteq> 0
   \<and> norm_func1_ieee demo_model_beta0 (emb demo_x) (emb demo_h0) (emb demo_adj)
       = Inr (emb (spec_beta0 demo_model_beta0 demo_x demo_h0))
   \<and> spec_beta0 demo_model_beta0 demo_x demo_h0 = Tensor 2 2 [[6/11, 4/11], [5/11, 18/11]]
   \<and> constructed 2 demo_model_one_class \<and> has_shape 2 (nclass demo_model_one_class) demo_x1
   \<and> has_shape 2 (nclass demo_model_one_class) demo_h01
   \<and> beta demo_model_one_class = 0 \<and> alpha demo_model_one_class \<noteq> 0
   \<and> (1 \<le> orders demo_model_one_class \<or> orders_func_id demo_model_one_class = 1)
   \<and> gamma demo_model_one_class = 1 \<and> nclass demo_model_one_class = 1
   \<and> norm_func1_ieee demo_model_one_class (emb demo_x1) (emb demo_h01) (emb demo_adj)
       = Inr (emb demo_h01)
   \<and> emb demo_h01 = XTensor 2 1 [[Fin 5], [Fin 7]]"
proof -
  have a: "constructed 2 demo_model_beta0" by code_simp
  have b: "has_shape 2 (nclass demo_model_beta0) demo_x" by code_simp
  have c: "has_shape 2 (nclass demo_model_beta0) demo_h0" by code_simp
  have d: "has_shape 2 2 demo_adj" by code_simp
  have e: "beta demo_model_beta0 = 0" by (simp add: demo_model_beta0_def)
  have f: "alpha demo_model_beta0 \<noteq> 0" by (simp add: demo_model_beta0_def demo_model_def)
  have g: "1 \<le> orders demo_model_beta0 \<or> orders_func_id demo_model_beta0 = 1"
    by (simp add: demo_model_beta0_def demo_model_def)
  have h: "gamma demo_model_beta0 \<noteq> 1" by (simp add: demo_model_beta0_def demo_model_def)
  have i: "det (nclass demo_model_beta0) (ent (spec_bracket demo_model_beta0 demo_x)) \<noteq> 0"
    by code_simp
  have j: "spec_beta0 demo_model_beta0 demo_x demo_h0 = Tensor 2 2 [[6/11, 4/11], [5/11, 18/11]]"
    by code_simp
  have k: "norm_func1_ieee demo_model_beta0 (emb demo_x) (emb demo_h0) (emb demo_adj)
       = Inr (emb (spec_beta0 demo_model_beta0 demo_x demo_h0))"
    using norm_func1_ieee_beta0[OF a b c d e f g, THEN conjunct1] h i by simp
  have a': "constructed 2 demo_model_one_class" by code_simp
  have b': "has_shape 2 (nclass demo_model_one_class) demo_x1" by code_simp
  have c': "has_shape 2 (nclass demo_model_one_class) demo_h01" by code_simp
  have e': "beta demo_model_one_class = 0" by (simp add: demo_model_one_class_def)
  have f': "alpha demo_model_one_class \<noteq> 0"
    by (simp add: demo_model_one_class_def demo_model_def)
  have g': "1 \<le> orders demo_model_one_class \<or> orders_func_id demo_model_one_class = 1"
    by (simp add: demo_model_one_class_def demo_model_def)
  have h': "gamma demo_model_one_class = 1" by (simp add: demo_model_one_class_def)
  have i': "nclass demo_model_one_class = 1" by (simp add: demo_model_one_class_def)
  have k': "norm_func1_ieee demo_model_one_class (emb demo_x1) (emb demo_h01) (emb demo_adj)
       = Inr (emb demo_h01)"
    using norm_func1_ieee_beta0[OF a' b' c' d e' f' g', THEN conjunct2] h' i' by simp
  have l': "emb demo_h01 = XTensor 2 1 [[Fin 5], [Fin 7]]" by code_simp
  show ?thesis
    by (intro conjI a b c d e f g h i j k a' b' c' e' f' g' h' i' k' l')
qed

text \<open>
  Claim C4 as stated fails for two classes: with \<open>beta = 0\<close> and \<open>gamma = 1\<close> the off-diagonal
  entries of \<^verbatim>\<open>coe2 * coe2 * class_eye\<close> are \<^verbatim>\<open>inf * 0 = nan\<close>, the call raises nothing, and
  every entry of the matrix it returns is \<^verbatim>\<open>nan\<close>: the result is not \<open>H0\<close>.
\<close>

theorem norm_func1_ieee_gamma1_nan:
  "beta demo_model_gamma1 = 0 \<and> gamma demo_model_gamma1 = 1
   \<and> norm_func1_ieee demo_model_gamma1 (emb demo_x) (emb demo_h0) (emb demo_adj)
       = Inr (XTensor 2 2 [[NaN, NaN], [NaN, NaN]])
   \<and> emb demo_h0 = XTensor 2 2 [[Fin 1, Fin 1], [Fin 0, Fin 2]]
   \<and> norm_func1_ieee demo_model_gamma1 (emb demo_x) (emb demo_h0) (emb demo_adj)
       \<noteq> Inr (emb demo_h0)"
proof -
  have a: "norm_func1_ieee demo_model_gamma1 (emb demo_x) (emb demo_h0) (emb demo_adj)
       = Inr (XTensor 2 2 [[NaN, NaN], [NaN, NaN]])"
    by code_simp
  have b: "emb demo_h0 = XTensor 2 2 [[Fin 1, Fin 1], [Fin 0, Fin 2]]"
    by code_simp
  have c: "beta demo_model_gamma1 = 0" "gamma demo_model_gamma1 = 1"
    by (simp_all add: demo_model_gamma1_def)
  have d: "norm_func1_ieee demo_model_gamma1 (emb demo_x) (emb demo_h0) (emb demo_adj)
       \<noteq> Inr (emb demo_h0)"
    by (simp only: a) (simp add: b)
  show ?thesis
    by (intro conjI a b c d)
qed








section \<open>The forward pass\<close>

lemma forward_hidden_first_mask_unused:
  "forward_hidden m keep1 keep2 x adj = forward_hidden m keep1' keep2 x adj"
  by (simp add: forward_hidden_def F_dropout_def)

lemma forward_hidden_eval:
  assumes "\<not> training m"
  shows "forward_hidden m keep1 keep2 x adj = spec_forward_hidden m keep1 keep2 x adj"
  using assms by (simp add: forward_hidden_def spec_forward_hidden_def F_dropout_def)

text \<open>
  Claim C3. The forward pass is to apply dropout to the features before \<open>Linear1\<close>. The source
  computes that dropout and then overwrites its result: \<^verbatim>\<open>xX = F.dropout(x, ...)\<close> is followed
  by \<^verbatim>\<open>xX = self.fc1(x)\<close>, on the features themselves. In training mode, with a mask that
  keeps the features of node 0 only, the code returns the embedding of the undropped
  features, not the one the claim describes. The two agree at evaluation time
  (\<open>forward_hidden_eval\<close>), and the embedding never depends on the first mask
  (\<open>forward_hidden_first_mask_unused\<close>).
\<close>

theorem forward_hidden_skips_feature_dropout:
  "training demo_model \<and> dropout demo_model = 1/2
   \<and> forward_hidden demo_model keep_first_row keep_all demo_features demo_adj
       = Inr (Tensor 2 1 [[2], [4]])
   \<and> spec_forward_hidden demo_model keep_first_row keep_all demo_features demo_adj
       = Inr (Tensor 2 1 [[4], [0]])"
proof -
  have a: "forward_hidden demo_model keep_first_row keep_all demo_features demo_adj
       = Inr (Tensor 2 1 [[2], [4]])" by code_simp
  have b: "spec_forward_hidden demo_model keep_first_row keep_all demo_features demo_adj
       = Inr (Tensor 2 1 [[4], [0]])" by code_simp
  show ?thesis
    by (simp add: a b) (simp add: demo_model_def)
qed

end
